theory Spec2Isabelle
  imports Complex_Main
begin

section \<open>Exceptions\<close>

text \<open>
  The Python exceptions that the modelled code can raise. \<open>OutOfBoundsDatetime\<close> is
  pandas' exception for a timestamp out of range; it is a subclass of \<open>ValueError\<close>,
  so \<open>except ValueError\<close> catches it. \<open>External\<close> stands for whatever a collaborator
  outside the repository raises (the HTTP client, the chart module, the file system);
  it carries the collaborator's own description.
\<close>

datatype error =
    KeyError
  | ValueError
  | OutOfBoundsDatetime
  | TypeError
  | OverflowError
  | AttributeError
  | External string

definition is_ValueError :: "error \<Rightarrow> bool" where
  \<comment> \<open>what \<open>except ValueError\<close> catches\<close>
  "is_ValueError e = (case e of ValueError \<Rightarrow> True | OutOfBoundsDatetime \<Rightarrow> True | _ \<Rightarrow> False)"

section \<open>Dates (\<open>datetime.datetime\<close>, \<open>pandas.Timestamp\<close>, \<open>datetime.timedelta\<close>)\<close>

text \<open>
  An instant is the number of microseconds since 0001-01-01T00:00:00. A date is an
  instant together with the class of the object that holds it, because the class
  decides what \<open>+\<close> does at the end of its range:
  \<^item> a naive \<open>datetime.datetime\<close> runs from 0001-01-01T00:00:00 to
    9999-12-31T23:59:59.999999, and leaving that range raises \<open>OverflowError\<close>;
  \<^item> a \<open>pandas.Timestamp\<close> (a subclass of \<open>datetime.datetime\<close>, the element of a
    \<open>DatetimeIndex\<close>) counts nanoseconds from 1970 in 64 bits, so it runs from
    1677-09-21T00:12:43.145225 to 2262-04-11T23:47:16.854775, and leaving that range
    raises \<open>OutOfBoundsDatetime\<close>.
  Adding a \<open>timedelta\<close> keeps the class. Dates of either class compare by their
  instants.
\<close>

type_synonym datetime = int

datatype kind = PyDatetime | PdTimestamp

datatype date = Date kind datetime

fun kind_of :: "date \<Rightarrow> kind" where
  "kind_of (Date k t) = k"

fun instant :: "date \<Rightarrow> datetime" where
  "instant (Date k t) = t"

definition us_per_day :: int where
  "us_per_day = 86400000000"

definition timedelta :: "int \<Rightarrow> int" where
  \<comment> \<open>\<open>datetime.timedelta(days=n)\<close>\<close>
  "timedelta n = n * us_per_day"

definition max_datetime :: datetime where
  \<comment> \<open>\<open>datetime.datetime.max\<close>: the last microsecond of day 3652059\<close>
  "max_datetime = 3652059 * us_per_day - 1"

definition unix_epoch :: datetime where
  \<comment> \<open>1970-01-01T00:00:00, day 719163\<close>
  "unix_epoch = 719162 * us_per_day"

definition timestamp_max :: datetime where
  \<comment> \<open>\<open>pd.Timestamp.max\<close>, \<open>2^63 - 1\<close> nanoseconds after 1970, in whole microseconds\<close>
  "timestamp_max = unix_epoch + 9223372036854775"

definition timestamp_min :: datetime where
  \<comment> \<open>\<open>pd.Timestamp.min\<close>, \<open>2^63 - 1\<close> nanoseconds before 1970, in whole microseconds\<close>
  "timestamp_min = unix_epoch - 9223372036854775"

fun in_range :: "kind \<Rightarrow> datetime \<Rightarrow> bool" where
  "in_range PyDatetime t = (0 \<le> t \<and> t \<le> max_datetime)"
| "in_range PdTimestamp t = (timestamp_min \<le> t \<and> t \<le> timestamp_max)"

fun out_of_range :: "kind \<Rightarrow> error" where
  "out_of_range PyDatetime = OverflowError"
| "out_of_range PdTimestamp = OutOfBoundsDatetime"

fun dt_add :: "date \<Rightarrow> int \<Rightarrow> error + date" where
  \<comment> \<open>\<open>d + delta\<close>\<close>
  "dt_add (Date k t) delta =
     (if in_range k (t + delta) then Inr (Date k (t + delta)) else Inl (out_of_range k))"

definition is_leap :: "int \<Rightarrow> bool" where
  "is_leap y = (if y mod 400 = 0 then True else if y mod 100 = 0 then False else y mod 4 = 0)"

definition days_before_year :: "int \<Rightarrow> int" where
  "days_before_year y = (y - 1) * 365 + (y - 1) div 4 - (y - 1) div 100 + (y - 1) div 400"

definition days_in_month :: "int \<Rightarrow> int \<Rightarrow> int" where
  "days_in_month y m =
     (if m = 2 \<and> is_leap y then 29
      else [31, 28, 31, 30, 31, 30, 31, 31, 30, 31, 30, 31] ! nat (m - 1))"

definition days_before_month :: "int \<Rightarrow> int \<Rightarrow> int" where
  "days_before_month y m =
     [0, 31, 59, 90, 120, 151, 181, 212, 243, 273, 304, 334] ! nat (m - 1)
       + (if 2 < m \<and> is_leap y then 1 else 0)"

definition ymd2ord :: "int \<Rightarrow> int \<Rightarrow> int \<Rightarrow> int" where
  \<comment> \<open>proleptic Gregorian ordinal, 0001-01-01 being day 1\<close>
  "ymd2ord y m d = days_before_year y + days_before_month y m + d"

definition midnight :: "int \<Rightarrow> int \<Rightarrow> int \<Rightarrow> datetime" where
  \<comment> \<open>the instant of \<open>datetime.datetime(y, m, d)\<close> for a valid calendar date\<close>
  "midnight y m d = (ymd2ord y m d - 1) * us_per_day"

definition datetime_ymd :: "int \<Rightarrow> int \<Rightarrow> int \<Rightarrow> error + datetime" where
  \<comment> \<open>the constructor \<open>datetime.datetime(y, m, d)\<close> with its range checks\<close>
  "datetime_ymd y m d =
     (if 1 \<le> y \<and> y \<le> 9999 \<and> 1 \<le> m \<and> m \<le> 12 \<and> 1 \<le> d \<and> d \<le> days_in_month y m
      then Inr (midnight y m d) else Inl ValueError)"

section \<open>Comprehensions whose body may raise\<close>

fun mapM :: "('a \<Rightarrow> error + 'b) \<Rightarrow> 'a list \<Rightarrow> error + 'b list" where
  "mapM f [] = Inr []"
| "mapM f (x # xs) =
     (case f x of
        Inl e \<Rightarrow> Inl e
      | Inr y \<Rightarrow> (case mapM f xs of Inl e \<Rightarrow> Inl e | Inr ys \<Rightarrow> Inr (y # ys)))"

fun filterM :: "('a \<Rightarrow> error + bool) \<Rightarrow> 'a list \<Rightarrow> error + 'a list" where
  "filterM p [] = Inr []"
| "filterM p (x # xs) =
     (case p x of
        Inl e \<Rightarrow> Inl e
      | Inr b \<Rightarrow>
          (case filterM p xs of
             Inl e \<Rightarrow> Inl e
           | Inr ys \<Rightarrow> Inr (if b then x # ys else ys)))"

fun py_min :: "date list \<Rightarrow> error + date" where
  \<comment> \<open>the builtin \<open>min\<close>: the first of the least elements, \<open>ValueError\<close> on an empty
      argument\<close>
  "py_min [] = Inl ValueError"
| "py_min (x # xs) = Inr (fold (\<lambda>y m. if instant y < instant m then y else m) xs x)"

fun py_max :: "date list \<Rightarrow> error + date" where
  \<comment> \<open>the builtin \<open>max\<close>: the first of the greatest elements, \<open>ValueError\<close> on an
      empty argument\<close>
  "py_max [] = Inl ValueError"
| "py_max (x # xs) = Inr (fold (\<lambda>y m. if instant m < instant y then y else m) xs x)"

section \<open>\<open>iex.estimate_next\<close>\<close>

fun addable :: "int \<Rightarrow> date \<Rightarrow> bool" where
  \<comment> \<open>whether \<open>d + delta\<close> is in the range of the class of \<open>d\<close>\<close>
  "addable delta (Date k t) = in_range k (t + delta)"

definition later :: "datetime \<Rightarrow> int \<Rightarrow> date \<Rightarrow> error + bool" where
  \<comment> \<open>the condition \<open>i + delta > today\<close> of the generator of line 78\<close>
  "later today delta i =
     (case dt_add i delta of Inl e \<Rightarrow> Inl e | Inr j \<Rightarrow> Inr (today < instant j))"

definition estimate_next :: "datetime \<Rightarrow> date list \<Rightarrow> error + date option" where
  \<comment> \<open>The first argument is the instant \<open>datetime.datetime.today()\<close> returns inside the
      call. Lines 74 and 75 are outside the \<open>try\<close>; the generator of lines 77-78 runs
      inside \<open>min\<close>, so what it raises passes the \<open>except ValueError\<close> of line 79.\<close>
  "estimate_next today prev_dates =
     (case mapM (\<lambda>i. dt_add i (timedelta 365)) prev_dates of
        Inl e \<Rightarrow> Inl e
      | Inr g1 \<Rightarrow>
     (case mapM (\<lambda>i. dt_add i (timedelta 730)) prev_dates of
        Inl e \<Rightarrow> Inl e
      | Inr g2 \<Rightarrow>
     (case
        (case filterM (later today (timedelta 365)) (g1 @ g2) of
           Inl e \<Rightarrow> Inl e
         | Inr kept \<Rightarrow> py_min kept)
      of
        Inr m \<Rightarrow> Inr (Some m)
      | Inl e \<Rightarrow> if is_ValueError e then Inr None else Inl e)))"

text \<open>
  The estimator as the specification words it, on instants: the candidates are every
  input date moved 365 and 730 days on; those whose own 365-day projection is strictly
  after today survive; the earliest survivor is the estimate, and there is none when
  nothing survives.
\<close>

definition candidates :: "datetime list \<Rightarrow> datetime set" where
  "candidates ds = (\<lambda>d. d + timedelta 365) ` set ds \<union> (\<lambda>d. d + timedelta 730) ` set ds"

definition surviving :: "datetime \<Rightarrow> datetime list \<Rightarrow> datetime set" where
  "surviving today ds = Set.filter (\<lambda>c. today < c + timedelta 365) (candidates ds)"

definition reference_estimate :: "datetime \<Rightarrow> datetime list \<Rightarrow> datetime option" where
  "reference_estimate today ds =
     (if surviving today ds = {} then None else Some (Min (surviving today ds)))"

fun projectable :: "date \<Rightarrow> bool" where
  \<comment> \<open>a date whose 365-, 730- and 1095-day projections are all in the range of its
      class\<close>
  "projectable (Date k t) =
     (in_range k (t + timedelta 365) \<and> in_range k (t + timedelta 730)
        \<and> in_range k (t + timedelta 1095))"

fun projectable_twice :: "date \<Rightarrow> bool" where
  \<comment> \<open>the 365- and 730-day projections, which lines 74 and 75 compute\<close>
  "projectable_twice (Date k t) =
     (in_range k (t + timedelta 365) \<and> in_range k (t + timedelta 730))"

fun shift :: "int \<Rightarrow> date \<Rightarrow> date" where
  \<comment> \<open>the date moved on, in its class, when that is in range\<close>
  "shift delta (Date k t) = Date k (t + delta)"

section \<open>JSON bodies and data frames\<close>

text \<open>
  The two event endpoints answer with JSON. A \<open>str\<close> is the list of its code
  points. A record is a JSON object with scalar members, kept as an
  association list in document order; the number type \<open>'n\<close> is never inspected. The
  dividends endpoint answers with an array of records; the earnings endpoint with an
  object whose members are texts or arrays of records. Keys are only ever compared
  with the literals of the program, so they are kept as strings.
\<close>

type_synonym str = "nat list"

definition ascii :: "string \<Rightarrow> str" where
  \<comment> \<open>the text of an ASCII literal\<close>
  "ascii s = map of_char s"

datatype 'n jvalue = JNull | JNum 'n | JStr str

type_synonym 'n jrecord = "(string \<times> 'n jvalue) list"

datatype 'n jmember = JText str | JRecords "'n jrecord list"

type_synonym 'n jobject = "(string \<times> 'n jmember) list"

definition dict_get :: "('k \<times> 'v) list \<Rightarrow> 'k \<Rightarrow> 'v option" where
  \<comment> \<open>a repeated key keeps its last value, as \<open>json.loads\<close> does\<close>
  "dict_get kvs k = map_of (rev kvs) k"

definition frame_columns :: "'n jrecord list \<Rightarrow> string list" where
  \<comment> \<open>\<open>pd.DataFrame(records).columns\<close>: every key that occurs in some record\<close>
  "frame_columns rs = remdups (concat (map (map fst) rs))"

definition cell :: "'n jrecord \<Rightarrow> string \<Rightarrow> 'n jvalue" where
  \<comment> \<open>a record without the column holds a null (NaN) there\<close>
  "cell r c = (case dict_get r c of None \<Rightarrow> JNull | Some v \<Rightarrow> v)"

subsection \<open>\<open>parsedate\<close>: \<open>strptime(d, "%Y-%m-%d")\<close>\<close>

text \<open>
  \<open>strptime\<close> matches the whole string against the pattern year, hyphen, month,
  hyphen, day and builds the date from the three numbers. Writing \<open>D\<close> for any decimal
  digit of Unicode and a bracketed class for ASCII digits only, the year is \<open>DDDD\<close>,
  the month is one of \<open>1[0-2]\<close>, \<open>0[1-9]\<close>, \<open>[1-9]\<close>, and the day is one of \<open>3[0-1]\<close>,
  \<open>[1-2]D\<close>, \<open>0[1-9]\<close>, \<open>[1-9]\<close> and a space before \<open>[1-9]\<close>; \<open>int\<close> reads a digit
  by its decimal value. Which code points beyond ASCII are decimal digits, and their
  values, is the interpreter's Unicode table, which is no part of the repository: the
  model takes it as the parameter \<open>table\<close>.
\<close>

definition decimal :: "(nat \<Rightarrow> nat option) \<Rightarrow> nat \<Rightarrow> nat option" where
  \<comment> \<open>the value of a code point that is a decimal digit\<close>
  "decimal table c =
     (if 48 \<le> c \<and> c \<le> 57 then Some (c - 48) else if c < 128 then None else table c)"

definition in_class :: "nat \<Rightarrow> nat \<Rightarrow> nat \<Rightarrow> nat option" where
  \<comment> \<open>the value of a code point in the class \<open>[lo-hi]\<close> of ASCII digits\<close>
  "in_class lo hi c = (if 48 + lo \<le> c \<and> c \<le> 48 + hi then Some (c - 48) else None)"

fun split_on :: "nat \<Rightarrow> str \<Rightarrow> str list" where
  "split_on c [] = [[]]"
| "split_on c (x # xs) =
     (if x = c then [] # split_on c xs
      else (case split_on c xs of [] \<Rightarrow> [[x]] | p # ps \<Rightarrow> (x # p) # ps))"

definition year_number :: "(nat \<Rightarrow> nat option) \<Rightarrow> str \<Rightarrow> nat option" where
  \<comment> \<open>four decimal digits\<close>
  "year_number table ys =
     (case map (decimal table) ys of
        [Some a, Some b, Some c, Some d] \<Rightarrow> Some (1000 * a + 100 * b + 10 * c + d)
      | _ \<Rightarrow> None)"

definition month_number :: "str \<Rightarrow> nat option" where
  \<comment> \<open>the three forms of the month\<close>
  "month_number ms =
     (case ms of
        [a, b] \<Rightarrow>
          if a = 49 then map_option (\<lambda>v. 10 + v) (in_class 0 2 b)
          else if a = 48 then in_class 1 9 b
          else None
      | [a] \<Rightarrow> in_class 1 9 a
      | _ \<Rightarrow> None)"

definition day_number :: "(nat \<Rightarrow> nat option) \<Rightarrow> str \<Rightarrow> nat option" where
  \<comment> \<open>the five forms of the day; 32 is the space\<close>
  "day_number table ds =
     (case ds of
        [a, b] \<Rightarrow>
          if a = 51 then map_option (\<lambda>v. 30 + v) (in_class 0 1 b)
          else if a = 49 then map_option (\<lambda>v. 10 + v) (decimal table b)
          else if a = 50 then map_option (\<lambda>v. 20 + v) (decimal table b)
          else if a = 48 then in_class 1 9 b
          else if a = 32 then in_class 1 9 b
          else None
      | [a] \<Rightarrow> in_class 1 9 a
      | _ \<Rightarrow> None)"

definition strptime_ymd :: "(nat \<Rightarrow> nat option) \<Rightarrow> str \<Rightarrow> error + datetime" where
  \<comment> \<open>45 is the hyphen\<close>
  "strptime_ymd table s =
     (case split_on 45 s of
        [ys, ms, ds] \<Rightarrow>
          (case year_number table ys of
             None \<Rightarrow> Inl ValueError
           | Some y \<Rightarrow>
          (case month_number ms of
             None \<Rightarrow> Inl ValueError
           | Some m \<Rightarrow>
          (case day_number table ds of
             None \<Rightarrow> Inl ValueError
           | Some d \<Rightarrow> datetime_ymd (int y) (int m) (int d))))
      | _ \<Rightarrow> Inl ValueError)"

definition parsedate :: "(nat \<Rightarrow> nat option) \<Rightarrow> 'n jvalue \<Rightarrow> error + datetime" where
  \<comment> \<open>\<open>strptime\<close> refuses anything that is not a \<open>str\<close> with \<open>TypeError\<close>\<close>
  "parsedate table v = (case v of JStr s \<Rightarrow> strptime_ymd table s | _ \<Rightarrow> Inl TypeError)"

subsection \<open>Frames indexed by a date column\<close>

text \<open>
  The frame \<open>df.set_index(col)\<close> returns: every row with the instant of its index
  label, the parsed date of column \<open>col\<close>, in the order of the records. pandas keeps a
  column of \<open>datetime\<close> objects as 64-bit nanosecond timestamps when all of them fit,
  and the index then yields \<open>Timestamp\<close> objects; when one does not fit, the column
  stays a column of the \<open>datetime\<close> objects themselves.
\<close>

record 'n frame =
  index_kind :: kind
  frame_rows :: "(datetime \<times> 'n jrecord) list"

definition column_kind :: "datetime list \<Rightarrow> kind" where
  "column_kind ts = (if list_all (in_range PdTimestamp) ts then PdTimestamp else PyDatetime)"

definition set_index :: "datetime list \<Rightarrow> 'n jrecord list \<Rightarrow> 'n frame" where
  "set_index labels rs = \<lparr> index_kind = column_kind labels, frame_rows = zip labels rs \<rparr>"

definition frame_index :: "'n frame \<Rightarrow> date list" where
  \<comment> \<open>\<open>df.index\<close>, as iterating it yields its elements\<close>
  "frame_index df = map (\<lambda>row. Date (index_kind df) (fst row)) (frame_rows df)"

definition has_columns :: "string list \<Rightarrow> 'n jrecord list \<Rightarrow> bool" where
  "has_columns cols rs = list_all (\<lambda>c. c \<in> set (frame_columns rs)) cols"

definition parse_columns ::
  "(nat \<Rightarrow> nat option) \<Rightarrow> string list \<Rightarrow> 'n jrecord list \<Rightarrow> error + datetime list list" where
  \<comment> \<open>\<open>df[cols].applymap(parsedate)\<close>: \<open>KeyError\<close> when a column is missing, then
      the columns one after the other, each from its first row to its last\<close>
  "parse_columns table cols rs =
     (if has_columns cols rs
      then mapM (\<lambda>c. mapM (\<lambda>r. parsedate table (cell r c)) rs) cols
      else Inl KeyError)"

datatype 'n picked = Scalar "'n jvalue" | Series "'n jvalue list"

definition loc :: "'n frame \<Rightarrow> date \<Rightarrow> string \<Rightarrow> error + 'n picked" where
  \<comment> \<open>\<open>df.loc[label, col]\<close>: the cell of the one row with that label, or the series
      of the cells of all of them, in their order, when the label is repeated\<close>
  "loc df label col =
     (if col \<in> set (frame_columns (map snd (frame_rows df)))
      then (case filter (\<lambda>row. fst row = instant label) (frame_rows df) of
              [] \<Rightarrow> Inl KeyError
            | [row] \<Rightarrow> Inr (Scalar (cell (snd row) col))
            | rows \<Rightarrow> Inr (Series (map (\<lambda>row. cell (snd row) col) rows)))
      else Inl KeyError)"

definition earnings_frame :: "(nat \<Rightarrow> nat option) \<Rightarrow> 'n jobject \<Rightarrow> error + 'n frame option" where
  \<comment> \<open>lines 114-117 of \<open>iex.py\<close>, on the decoded body\<close>
  "earnings_frame table result =
     (case dict_get result ''earnings'' of
        None \<Rightarrow> Inl KeyError
      | Some (JText s) \<Rightarrow> Inl ValueError
      | Some (JRecords rs) \<Rightarrow>
          (case parse_columns table [''EPSReportDate'', ''fiscalEndDate''] rs of
             Inl e \<Rightarrow> Inl e
           | Inr parsed \<Rightarrow> Inr (Some (set_index (hd parsed) rs))))"

definition dividends_frame ::
  "(nat \<Rightarrow> nat option) \<Rightarrow> 'n jrecord list \<Rightarrow> error + 'n frame option" where
  \<comment> \<open>lines 132-138 of \<open>iex.py\<close>, on the decoded body\<close>
  "dividends_frame table rs =
     (if ''exDate'' \<in> set (frame_columns rs)
      then (case parse_columns table
                  [''declaredDate'', ''exDate'', ''paymentDate'', ''recordDate''] rs of
              Inl e \<Rightarrow> Inl e
            | Inr parsed \<Rightarrow> Inr (Some (set_index (parsed ! 1) rs)))
      else Inr None)"

section \<open>The outside world\<close>

text \<open>
  Whatever the program does to the outside is an event appended to a trace: a log
  line of the collector, a call of the historical loader or of the backtest, a request
  to an endpoint, a reading of the clock. The collaborators answer as functions of
  the trace so far, so they may answer differently each time they are asked. The
  world also holds the interpreter's table of the decimal digits beyond ASCII.
\<close>

type_synonym symbol = string

datatype event =
    Collecting symbol
  | Historical symbol
  | Backtest symbol
  | Earnings symbol
  | Dividends symbol
  | Today

type_synonym trace = "event list"

fun about :: "event \<Rightarrow> symbol option" where
  "about (Collecting s) = Some s"
| "about (Historical s) = Some s"
| "about (Backtest s) = Some s"
| "about (Earnings s) = Some s"
| "about (Dividends s) = Some s"
| "about Today = None"

record ('h, 'c, 'n) env =
  load_historical :: "trace \<Rightarrow> symbol \<Rightarrow> error + 'h"
  run_backtest :: "trace \<Rightarrow> 'h \<Rightarrow> error + 'c"
  get_earnings :: "trace \<Rightarrow> symbol \<Rightarrow> error + 'n jobject"
  get_dividends :: "trace \<Rightarrow> symbol \<Rightarrow> error + 'n jrecord list"
  clock :: "trace \<Rightarrow> datetime"
  unicode_decimal :: "nat \<Rightarrow> nat option"

type_synonym 'a io = "trace \<Rightarrow> (error + 'a) \<times> trace"

definition io_return :: "'a \<Rightarrow> 'a io" where
  "io_return x = (\<lambda>tr. (Inr x, tr))"

definition io_lift :: "error + 'a \<Rightarrow> 'a io" where
  \<comment> \<open>a computation that touches nothing outside but may raise\<close>
  "io_lift r = (\<lambda>tr. (r, tr))"

definition io_bind :: "'a io \<Rightarrow> ('a \<Rightarrow> 'b io) \<Rightarrow> 'b io" where
  \<comment> \<open>sequencing: an exception of the first part skips the second\<close>
  "io_bind m f = (\<lambda>tr. case m tr of (Inl e, tr') \<Rightarrow> (Inl e, tr') | (Inr x, tr') \<Rightarrow> f x tr')"

definition ask :: "event \<Rightarrow> (trace \<Rightarrow> error + 'a) \<Rightarrow> 'a io" where
  \<comment> \<open>a call of a collaborator: it answers from the trace so far and leaves its event\<close>
  "ask ev answer = (\<lambda>tr. (answer tr, tr @ [ev]))"

section \<open>\<open>iex.py\<close>: the event loaders and the calendar\<close>

text \<open>
  \<open>requests.get(url).json()\<close> is a call of the collaborator: what it raises (the
  transport failing, a body that is not JSON) is the collaborator's exception, and the
  loader does not catch it. \<open>estimate_next\<close> is given the index of the earnings
  frame, whose elements are timestamps unless a report date does not fit one.
\<close>

definition load_earnings :: "('h, 'c, 'n) env \<Rightarrow> symbol \<Rightarrow> 'n frame option io" where
  "load_earnings env symbol =
     io_bind (ask (Earnings symbol) (\<lambda>tr. get_earnings env tr symbol))
       (\<lambda>result. io_lift (earnings_frame (unicode_decimal env) result))"

definition load_dividends :: "('h, 'c, 'n) env \<Rightarrow> symbol \<Rightarrow> 'n frame option io" where
  "load_dividends env symbol =
     io_bind (ask (Dividends symbol) (\<lambda>tr. get_dividends env tr symbol))
       (\<lambda>body. io_lift (dividends_frame (unicode_decimal env) body))"

definition estimate_next_now :: "('h, 'c, 'n) env \<Rightarrow> date list \<Rightarrow> date option io" where
  \<comment> \<open>a call of \<open>estimate_next\<close>, which reads the clock itself\<close>
  "estimate_next_now env prev_dates =
     io_bind (ask Today (\<lambda>tr. Inr (clock env tr)))
       (\<lambda>today. io_lift (estimate_next today prev_dates))"

record 'n calendar =
  lastEPSReportDate :: "date option"
  nextEPSReportDate :: "date option"
  lastExDate :: "date option"
  lastDividend :: "'n picked option"
  nextExDate :: "date option"

definition earnings_index :: "'n frame option \<Rightarrow> error + date list" where
  \<comment> \<open>\<open>earnings.index\<close>, which \<open>None\<close> does not have\<close>
  "earnings_index earnings =
     (case earnings of None \<Rightarrow> Inl AttributeError | Some ef \<Rightarrow> Inr (frame_index ef))"

definition report_fields ::
  "('h, 'c, 'n) env \<Rightarrow> 'n frame option \<Rightarrow> (date option \<times> date option) io" where
  \<comment> \<open>lines 155-160: \<open>last_reportDate\<close> and \<open>next_reportDate\<close>\<close>
  "report_fields env earnings =
     (case earnings of
        Some ef \<Rightarrow>
          io_bind (io_lift (py_max (frame_index ef))) (\<lambda>last_reportDate.
          io_bind (estimate_next_now env (frame_index ef)) (\<lambda>next_reportDate.
          io_return (Some last_reportDate, next_reportDate)))
      | None \<Rightarrow> io_return (None, None))"

definition dividend_fields ::
  "('h, 'c, 'n) env \<Rightarrow> 'n frame option \<Rightarrow> 'n frame option
     \<Rightarrow> (date option \<times> 'n picked option \<times> date option) io" where
  \<comment> \<open>lines 162-169: \<open>last_exDate\<close>, \<open>last_dividend\<close> and \<open>next_exDate\<close>\<close>
  "dividend_fields env earnings dividends =
     (case dividends of
        Some df \<Rightarrow>
          io_bind (io_lift (py_max (frame_index df))) (\<lambda>last_exDate.
          io_bind (io_lift (loc df last_exDate ''amount'')) (\<lambda>last_dividend.
          io_bind (io_lift (earnings_index earnings)) (\<lambda>dates.
          io_bind (estimate_next_now env dates) (\<lambda>next_exDate.
          io_return (Some last_exDate, Some last_dividend, next_exDate)))))
      | None \<Rightarrow> io_return (None, None, None))"

definition load_calendar :: "('h, 'c, 'n) env \<Rightarrow> symbol \<Rightarrow> 'n calendar io" where
  "load_calendar env symbol =
     io_bind (ask Today (\<lambda>tr. Inr (clock env tr))) (\<lambda>today.
     io_bind (load_earnings env symbol) (\<lambda>earnings.
     io_bind (load_dividends env symbol) (\<lambda>dividends.
     io_bind (report_fields env earnings) (\<lambda>reports.
     io_bind (dividend_fields env earnings dividends) (\<lambda>exs.
     io_return
       \<lparr> lastEPSReportDate = fst reports,
         nextEPSReportDate = snd reports,
         lastExDate = fst exs,
         lastDividend = fst (snd exs),
         nextExDate = snd (snd exs) \<rparr>)))))"

section \<open>\<open>collector.py\<close>: the collection\<close>

text \<open>
  A row is the chart statistics of \<open>run_backtest\<close> followed by the calendar
  (\<open>pd.concat\<close> of the two series); the table pairs every index label with its row.
  The labels inside a row are not modelled.
\<close>

type_synonym ('c, 'n) row = "'c \<times> 'n calendar"

type_synonym ('c, 'n) table = "(symbol \<times> ('c, 'n) row) list"

definition generate_stats_step :: "('h, 'c, 'n) env \<Rightarrow> symbol \<Rightarrow> ('c, 'n) row io" where
  \<comment> \<open>the body of the loop of \<open>generate_stats\<close>, up to its \<open>yield\<close>\<close>
  "generate_stats_step env symbol =
     io_bind (ask (Collecting symbol) (\<lambda>tr. Inr ())) (\<lambda>logged.
     io_bind (ask (Historical symbol) (\<lambda>tr. load_historical env tr symbol)) (\<lambda>hist.
     io_bind (ask (Backtest symbol) (\<lambda>tr. run_backtest env tr hist)) (\<lambda>chart_stats.
     io_bind (load_calendar env symbol) (\<lambda>calendar_stats.
     io_return (chart_stats, calendar_stats)))))"

fun generate_stats :: "('h, 'c, 'n) env \<Rightarrow> symbol list \<Rightarrow> ('c, 'n) row list io" where
  "generate_stats env [] = io_return []"
| "generate_stats env (symbol # index) =
     io_bind (generate_stats_step env symbol) (\<lambda>combined.
     io_bind (generate_stats env index) (\<lambda>rest.
     io_return (combined # rest)))"

definition data_frame :: "'r list \<Rightarrow> symbol list \<Rightarrow> error + (symbol \<times> 'r) list" where
  \<comment> \<open>\<open>pd.DataFrame(rows, index=labels)\<close>: as many labels as rows, or \<open>ValueError\<close>\<close>
  "data_frame rows labels =
     (if length rows = length labels then Inr (zip labels rows) else Inl ValueError)"

definition run_collection :: "('h, 'c, 'n) env \<Rightarrow> symbol list \<Rightarrow> ('c, 'n) table io" where
  "run_collection env symbols =
     io_bind (generate_stats env symbols) (\<lambda>rows. io_lift (data_frame rows symbols))"

section \<open>\<open>collector.py\<close>: the symbol list\<close>

definition dji_components :: "symbol list" where
  "dji_components =
     [''v'', ''xom'', ''wmt'', ''cat'', ''cvx'', ''aapl'', ''gs'', ''axp'',
      ''ibm'', ''mcd'', ''mmm'', ''jpm'', ''ba'', ''trv'', ''msft'', ''dwdp'',
      ''pg'', ''nke'', ''ko'', ''mrk'', ''dis'', ''csco'', ''intc'', ''jnj'',
      ''pfe'', ''unh'', ''hd'', ''wba'', ''vz'', ''utx'']"

definition faves_components :: "symbol list" where
  "faves_components =
     [''aapl'', ''fb'', ''amzn'', ''goog'', ''nflx'',
      ''dis'', ''de'', ''mcd'', ''ibm'', ''cpb'',
      ''nvda'', ''amd'', ''mu'', ''intc'',
      ''bac'', ''usb'', ''brk.b'',
      ''x'', ''cat'', ''ba'', ''luv'',
      ''tsla'', ''snap'', ''twtr'', ''spot'',
      ''tlry'', ''cgc'', ''stz'',
      ''pfe'']"

text \<open>
  \<open>load_symbol_list(groups=["faves"], symbols=[])\<close>. The default of \<open>symbols\<close> is one
  list object, made when the function is defined and shared by every call that omits
  the argument; \<open>symbols += ...\<close> extends the object it is bound to in place. So the
  model takes the present content of the default object and the two arguments
  (\<open>None\<close> when omitted), and returns the result, the content of the list bound to
  \<open>symbols\<close> when the call ends, and the content of the default object afterwards.
  \<open>sp500\<close> is what \<open>list(load_sp500_weights().Symbol)\<close> gives, should it be
  evaluated. The result \<open>list(set(symbols))\<close> lists the set in an order the program
  does not fix; it is kept as the set.
\<close>

definition load_symbol_list ::
  "symbol list \<Rightarrow> string list option \<Rightarrow> symbol list option \<Rightarrow> error + symbol list
     \<Rightarrow> (error + symbol set) \<times> symbol list \<times> symbol list" where
  "load_symbol_list default_symbols groups_arg symbols_arg sp500 =
     (let groups = (case groups_arg of None \<Rightarrow> [''faves''] | Some g \<Rightarrow> g);
          symbols = (case symbols_arg of None \<Rightarrow> default_symbols | Some s \<Rightarrow> s);
          extended =
            (if ''faves'' \<in> set groups then Inr (symbols @ faves_components)
             else if ''dji'' \<in> set groups then Inr (symbols @ dji_components)
             else if ''sp'' \<in> set groups then
               (case sp500 of Inl e \<Rightarrow> Inl e | Inr weights_Symbol \<Rightarrow> Inr (symbols @ weights_Symbol))
             else Inr symbols)
      in case extended of
           Inl e \<Rightarrow> (Inl e, symbols, default_symbols)
         | Inr symbols' \<Rightarrow>
             (if length symbols' = 0 then Inl ValueError else Inr (set symbols'),
              symbols',
              case symbols_arg of None \<Rightarrow> symbols' | Some s \<Rightarrow> default_symbols))"

definition cmd_collect ::
  "('h, 'c, 'n) env \<Rightarrow> (symbol set \<Rightarrow> symbol list) \<Rightarrow> error + symbol list
     \<Rightarrow> string list option \<Rightarrow> symbol list option \<Rightarrow> ('c, 'n) table io" where
  \<comment> \<open>\<open>args.group\<close> and \<open>args.symbol\<close> are \<open>None\<close> when the option was not given;
      \<open>set_order\<close> is the order in which \<open>list(set(...))\<close> lists a set\<close>
  "cmd_collect env set_order sp500 args_group args_symbol =
     io_bind
       (io_lift (fst (load_symbol_list []
          (Some (case args_group of None \<Rightarrow> [] | Some g \<Rightarrow> g))
          (Some (case args_symbol of None \<Rightarrow> [] | Some s \<Rightarrow> s)) sp500)))
       (\<lambda>symbols. run_collection env (set_order symbols))"

section \<open>Traces that stay with given symbols\<close>

text \<open>
  An event concerns a set of symbols when it names one of them or names none (a
  reading of the clock). A computation stays within the set when, from any trace, it
  only appends events that concern it.
\<close>

definition concerns :: "symbol set \<Rightarrow> event \<Rightarrow> bool" where
  "concerns S ev = (case about ev of None \<Rightarrow> True | Some s \<Rightarrow> s \<in> S)"


section \<open>Example worlds\<close>

text \<open>
  A world in which every symbol has one earnings report (2023-02-01) and no dividend
  record, the clock stands at 2024-06-01, the historical loader fails for the symbol
  \<open>NOSUCH\<close>, and no code point beyond ASCII is a digit. The same world with two
  dividend records for every symbol, on different dates and on the same date. The
  same world with dividend records and no earnings record.
\<close>

definition one_report :: "symbol \<Rightarrow> real jobject" where
  "one_report s =
     [(''symbol'', JText (ascii s)),
      (''earnings'', JRecords [[(''EPSReportDate'', JStr (ascii ''2023-02-01'')),
                               (''fiscalEndDate'', JStr (ascii ''2022-12-31''))]])]"

definition dividend_record :: "real \<Rightarrow> string \<Rightarrow> real jrecord" where
  "dividend_record amount ex_date =
     [(''amount'', JNum amount), (''declaredDate'', JStr (ascii ''2023-05-04'')),
      (''exDate'', JStr (ascii ex_date)), (''paymentDate'', JStr (ascii ''2023-08-17'')),
      (''recordDate'', JStr (ascii ''2023-08-14''))]"

definition example_env :: "(unit, unit, real) env" where
  "example_env =
     \<lparr> load_historical = (\<lambda>tr s. if s = ''NOSUCH'' then Inl (External ''ConnectionError'') else Inr ()),
       run_backtest = (\<lambda>tr h. Inr ()),
       get_earnings = (\<lambda>tr s. Inr (one_report s)),
       get_dividends = (\<lambda>tr s. Inr []),
       clock = (\<lambda>tr. midnight 2024 6 1),
       unicode_decimal = (\<lambda>c. None) \<rparr>"

definition example_calendar :: "real calendar" where
  "example_calendar =
     \<lparr> lastEPSReportDate = Some (Date PdTimestamp (midnight 2023 2 1)),
       nextEPSReportDate = Some (Date PdTimestamp (midnight 2024 2 1)),
       lastExDate = None, lastDividend = None, nextExDate = None \<rparr>"

definition events_of :: "symbol \<Rightarrow> event list" where
  "events_of s = [Collecting s, Historical s, Backtest s, Today, Earnings s, Dividends s, Today]"

definition dividend_env :: "(unit, unit, real) env" where
  "dividend_env =
     example_env \<lparr> get_dividends := (\<lambda>tr s. Inr
       [dividend_record 0.23 ''2023-05-12'', dividend_record 0.24 ''2023-08-11'']) \<rparr>"

definition dividend_calendar :: "real calendar" where
  "dividend_calendar =
     \<lparr> lastEPSReportDate = Some (Date PdTimestamp (midnight 2023 2 1)),
       nextEPSReportDate = Some (Date PdTimestamp (midnight 2024 2 1)),
       lastExDate = Some (Date PdTimestamp (midnight 2023 8 11)),
       lastDividend = Some (Scalar (JNum 0.24)),
       nextExDate = Some (Date PdTimestamp (midnight 2024 2 1)) \<rparr>"

definition same_day_env :: "(unit, unit, real) env" where
  "same_day_env =
     example_env \<lparr> get_dividends := (\<lambda>tr s. Inr
       [dividend_record 0.25 ''2023-08-11'', dividend_record 0.5 ''2023-08-11'']) \<rparr>"

definition same_day_calendar :: "real calendar" where
  "same_day_calendar =
     \<lparr> lastEPSReportDate = Some (Date PdTimestamp (midnight 2023 2 1)),
       nextEPSReportDate = Some (Date PdTimestamp (midnight 2024 2 1)),
       lastExDate = Some (Date PdTimestamp (midnight 2023 8 11)),
       lastDividend = Some (Series [JNum 0.25, JNum 0.5]),
       nextExDate = Some (Date PdTimestamp (midnight 2024 2 1)) \<rparr>"

definition no_report_env :: "(unit, unit, real) env" where
  "no_report_env =
     dividend_env \<lparr> get_earnings := (\<lambda>tr s. Inr
       [(''symbol'', JText (ascii s)), (''earnings'', JRecords [])]) \<rparr>"

section \<open>Properties of the estimator\<close>

lemma dt_add_addable: "addable delta d \<Longrightarrow> dt_add d delta = Inr (shift delta d)"
  by (cases d) simp

lemma dt_add_not_addable: "\<not> addable delta d \<Longrightarrow> dt_add d delta = Inl (out_of_range (kind_of d))"
  by (cases d) simp

lemma instant_shift [simp]: "instant (shift delta d) = instant d + delta"
  by (cases d) simp

lemma kind_of_shift [simp]: "kind_of (shift delta d) = kind_of d"
  by (cases d) simp

lemma mapM_dt_add_iff:
  "mapM (\<lambda>i. dt_add i delta) ds = Inr gs \<longleftrightarrow> list_all (addable delta) ds \<and> gs = map (shift delta) ds"
proof (induction ds arbitrary: gs)
  case Nil
  show ?case by auto
next
  case (Cons d ds)
  show ?case
  proof (cases "addable delta d")
    case False
    then show ?thesis by (simp add: dt_add_not_addable)
  next
    case True
    show ?thesis
    proof (cases "mapM (\<lambda>i. dt_add i delta) ds")
      case (Inl e)
      with Cons.IH [of "map (shift delta) ds"] have "\<not> list_all (addable delta) ds" by simp
      with Inl True show ?thesis by (simp add: dt_add_addable)
    next
      case (Inr ys)
      with Cons.IH [of ys] have "list_all (addable delta) ds" "ys = map (shift delta) ds" by simp_all
      with Inr True show ?thesis by (auto simp: dt_add_addable)
    qed
  qed
qed

lemma mapM_dt_add_fail:
  "list_all (\<lambda>d. kind_of d = k) ds \<Longrightarrow> \<not> list_all (addable delta) ds \<Longrightarrow>
   mapM (\<lambda>i. dt_add i delta) ds = Inl (out_of_range k)"
proof (induction ds)
  case Nil
  then show ?case by simp
next
  case (Cons d ds)
  show ?case
  proof (cases "addable delta d")
    case False
    with Cons.prems show ?thesis by (simp add: dt_add_not_addable)
  next
    case True
    with Cons.prems have "\<not> list_all (addable delta) ds" "list_all (\<lambda>d. kind_of d = k) ds" by simp_all
    with Cons.IH True show ?thesis by (simp add: dt_add_addable)
  qed
qed

lemma later_addable: "addable delta g \<Longrightarrow> later today delta g = Inr (today < instant g + delta)"
  by (simp add: later_def dt_add_addable)

lemma later_not_addable: "\<not> addable delta g \<Longrightarrow> later today delta g = Inl (out_of_range (kind_of g))"
  by (simp add: later_def dt_add_not_addable)

lemma filterM_later_iff:
  "filterM (later today delta) gs = Inr kept \<longleftrightarrow>
     list_all (addable delta) gs \<and> kept = filter (\<lambda>i. today < instant i + delta) gs"
proof (induction gs arbitrary: kept)
  case Nil
  show ?case by auto
next
  case (Cons g gs)
  show ?case
  proof (cases "addable delta g")
    case False
    then show ?thesis by (simp add: later_not_addable)
  next
    case True
    show ?thesis
    proof (cases "filterM (later today delta) gs")
      case (Inl e)
      with Cons.IH [of "filter (\<lambda>i. today < instant i + delta) gs"]
      have "\<not> list_all (addable delta) gs" by simp
      with Inl True show ?thesis by (simp add: later_addable)
    next
      case (Inr ys)
      with Cons.IH [of ys] have "list_all (addable delta) gs"
        "ys = filter (\<lambda>i. today < instant i + delta) gs" by simp_all
      with Inr True show ?thesis by (auto simp: later_addable)
    qed
  qed
qed

lemma filterM_later_fail:
  "list_all (\<lambda>d. kind_of d = k) gs \<Longrightarrow> \<not> list_all (addable delta) gs \<Longrightarrow>
   filterM (later today delta) gs = Inl (out_of_range k)"
proof (induction gs)
  case Nil
  then show ?case by simp
next
  case (Cons g gs)
  show ?case
  proof (cases "addable delta g")
    case False
    with Cons.prems show ?thesis by (simp add: later_not_addable)
  next
    case True
    with Cons.prems have "\<not> list_all (addable delta) gs" "list_all (\<lambda>d. kind_of d = k) gs" by simp_all
    with Cons.IH True show ?thesis by (simp add: later_addable)
  qed
qed

lemma fold_least:
  "fold (\<lambda>y m. if instant y < instant m then y else m) xs x \<in> set (x # xs)
   \<and> instant (fold (\<lambda>y m. if instant y < instant m then y else m) xs x)
       = Min (instant ` set (x # xs))"
proof (induction xs arbitrary: x)
  case Nil
  show ?case by simp
next
  case (Cons y ys)
  let ?z = "if instant y < instant x then y else x"
  from Cons.IH [of ?z] have m: "fold (\<lambda>y m. if instant y < instant m then y else m) ys ?z \<in> set (?z # ys)"
    and v: "instant (fold (\<lambda>y m. if instant y < instant m then y else m) ys ?z)
       = Min (instant ` set (?z # ys))" by blast+
  have "Min (instant ` set (?z # ys)) = Min (instant ` set (x # y # ys))"
  proof (cases "ys = []")
    case True
    then show ?thesis by (auto simp: min_def)
  next
    case False
    then have ne: "instant ` set ys \<noteq> {}" by simp
    have fin: "finite (instant ` set ys)" by simp
    have "Min (insert (instant ?z) (instant ` set ys)) = min (instant ?z) (Min (instant ` set ys))"
      by (rule Min_insert [OF fin ne])
    moreover have "Min (insert (instant x) (insert (instant y) (instant ` set ys)))
        = min (instant x) (min (instant y) (Min (instant ` set ys)))"
      using fin ne by simp
    ultimately show ?thesis by (auto simp: min_def)
  qed
  with m v show ?case by auto
qed

lemma fold_greatest:
  "fold (\<lambda>y m. if instant m < instant y then y else m) xs x \<in> set (x # xs)
   \<and> instant (fold (\<lambda>y m. if instant m < instant y then y else m) xs x)
       = Max (instant ` set (x # xs))"
proof (induction xs arbitrary: x)
  case Nil
  show ?case by simp
next
  case (Cons y ys)
  let ?z = "if instant x < instant y then y else x"
  from Cons.IH [of ?z] have m: "fold (\<lambda>y m. if instant m < instant y then y else m) ys ?z \<in> set (?z # ys)"
    and v: "instant (fold (\<lambda>y m. if instant m < instant y then y else m) ys ?z)
       = Max (instant ` set (?z # ys))" by blast+
  have "Max (instant ` set (?z # ys)) = Max (instant ` set (x # y # ys))"
  proof (cases "ys = []")
    case True
    then show ?thesis by (auto simp: max_def)
  next
    case False
    then have ne: "instant ` set ys \<noteq> {}" by simp
    have fin: "finite (instant ` set ys)" by simp
    have "Max (insert (instant ?z) (instant ` set ys)) = max (instant ?z) (Max (instant ` set ys))"
      by (rule Max_insert [OF fin ne])
    moreover have "Max (insert (instant x) (insert (instant y) (instant ` set ys)))
        = max (instant x) (max (instant y) (Max (instant ` set ys)))"
      using fin ne by simp
    ultimately show ?thesis by (auto simp: max_def)
  qed
  with m v show ?case by auto
qed

lemma py_min_least:
  "py_min xs = Inr m \<Longrightarrow> m \<in> set xs \<and> instant m = Min (instant ` set xs)"
  using fold_least by (cases xs) auto

lemma py_max_greatest:
  "py_max xs = Inr m \<Longrightarrow> m \<in> set xs \<and> instant m = Max (instant ` set xs)"
  using fold_greatest by (cases xs) auto

lemma py_min_total: "xs \<noteq> [] \<Longrightarrow> \<exists>m. py_min xs = Inr m"
  by (cases xs) simp_all

lemma py_max_total: "xs \<noteq> [] \<Longrightarrow> \<exists>m. py_max xs = Inr m"
  by (cases xs) simp_all


lemmas calendar_arith =
  max_datetime_def timestamp_max_def timestamp_min_def unix_epoch_def timedelta_def
  us_per_day_def midnight_def ymd2ord_def days_before_year_def days_before_month_def is_leap_def

lemma timedelta_twice:
  "d + timedelta 730 + timedelta 365 = d + timedelta 1095"
  "d + timedelta 365 + timedelta 365 = d + timedelta 730"
  by (simp_all add: timedelta_def)

lemma projectable_addable:
  "projectable d \<longleftrightarrow> addable (timedelta 365) d \<and> addable (timedelta 730) d
     \<and> addable (timedelta 365) (shift (timedelta 730) d)"
  by (cases d) (simp add: timedelta_twice)

lemma projectable_twice_addable:
  "projectable_twice d \<longleftrightarrow> addable (timedelta 365) d \<and> addable (timedelta 730) d"
  by (cases d) simp

lemma addable_shift_365:
  "addable (timedelta 730) d \<Longrightarrow> addable (timedelta 365) (shift (timedelta 365) d)"
  by (cases d) (simp add: timedelta_twice)

lemma guesses_addable:
  "list_all (addable (timedelta 365))
      (map (shift (timedelta 365)) ds @ map (shift (timedelta 730)) ds)
   \<longleftrightarrow> list_all (\<lambda>d. addable (timedelta 365) (shift (timedelta 365) d)) ds
        \<and> list_all (\<lambda>d. addable (timedelta 365) (shift (timedelta 730) d)) ds"
  by (simp add: list_all_iff ball_Un)

lemma instants_kept:
  "instant ` set (filter (\<lambda>i. today < instant i + timedelta 365)
        (map (shift (timedelta 365)) ds @ map (shift (timedelta 730)) ds))
     = surviving today (map instant ds)"
proof -
  have "map instant (filter (\<lambda>i. today < instant i + timedelta 365)
        (map (shift (timedelta 365)) ds @ map (shift (timedelta 730)) ds))
      = filter (\<lambda>c. today < c + timedelta 365)
          (map (\<lambda>t. t + timedelta 365) (map instant ds) @ map (\<lambda>t. t + timedelta 730) (map instant ds))"
    by (simp add: filter_map comp_def)
  then have "set (map instant (filter (\<lambda>i. today < instant i + timedelta 365)
        (map (shift (timedelta 365)) ds @ map (shift (timedelta 730)) ds)))
      = set (filter (\<lambda>c. today < c + timedelta 365)
          (map (\<lambda>t. t + timedelta 365) (map instant ds) @ map (\<lambda>t. t + timedelta 730) (map instant ds)))"
    by (rule arg_cong)
  also have "\<dots> = surviving today (map instant ds)"
    by (auto simp: surviving_def candidates_def)
  finally show ?thesis by (simp only: set_map)
qed

lemma result_of_kept:
  assumes "instant ` set kept = S"
  shows "\<exists>r. (case py_min kept of Inr m \<Rightarrow> Inr (Some m)
               | Inl e \<Rightarrow> if is_ValueError e then Inr None else Inl e) = Inr r
           \<and> map_option instant r = (if S = {} then None else Some (Min S))
           \<and> (case r of None \<Rightarrow> True | Some c \<Rightarrow> c \<in> set kept)"
proof (cases "kept = []")
  case True
  with assms show ?thesis by (auto simp: is_ValueError_def)
next
  case False
  then obtain m where m: "py_min kept = Inr m" using py_min_total by blast
  from py_min_least [OF m] have mk: "m \<in> set kept" and mi: "instant m = Min (instant ` set kept)"
    by simp_all
  from mk assms have "S \<noteq> {}" by auto
  with m mk mi assms show ?thesis by simp
qed

lemma estimate_next_stages:
  assumes "list_all projectable_twice ds"
  shows "estimate_next today ds =
     (case
        (case filterM (later today (timedelta 365))
                (map (shift (timedelta 365)) ds @ map (shift (timedelta 730)) ds) of
           Inl e \<Rightarrow> Inl e
         | Inr kept \<Rightarrow> py_min kept)
      of
        Inr m \<Rightarrow> Inr (Some m)
      | Inl e \<Rightarrow> if is_ValueError e then Inr None else Inl e)"
proof -
  from assms have "list_all (addable (timedelta 365)) ds" "list_all (addable (timedelta 730)) ds"
    by (simp_all add: list_all_iff projectable_twice_addable)
  then have "mapM (\<lambda>i. dt_add i (timedelta 365)) ds = Inr (map (shift (timedelta 365)) ds)"
    "mapM (\<lambda>i. dt_add i (timedelta 730)) ds = Inr (map (shift (timedelta 730)) ds)"
    by (simp_all add: mapM_dt_add_iff)
  then show ?thesis by (simp add: estimate_next_def)
qed

lemma estimate_next_in_range:
  assumes "list_all projectable ds"
  shows "\<exists>r. estimate_next today ds = Inr r
           \<and> map_option instant r = reference_estimate today (map instant ds)
           \<and> (case r of None \<Rightarrow> True | Some c \<Rightarrow> kind_of c \<in> kind_of ` set ds)"
proof -
  let ?gs = "map (shift (timedelta 365)) ds @ map (shift (timedelta 730)) ds"
  let ?kept = "filter (\<lambda>i. today < instant i + timedelta 365) ?gs"
  from assms have tw: "list_all projectable_twice ds"
    by (auto simp: list_all_iff projectable_addable projectable_twice_addable)
  from assms have "list_all (addable (timedelta 365)) ?gs"
    unfolding guesses_addable by (auto simp: list_all_iff projectable_addable addable_shift_365)
  then have f: "filterM (later today (timedelta 365)) ?gs = Inr ?kept"
    by (simp add: filterM_later_iff)
  have e: "estimate_next today ds =
      (case py_min ?kept of Inr m \<Rightarrow> Inr (Some m)
       | Inl e \<Rightarrow> if is_ValueError e then Inr None else Inl e)"
    unfolding estimate_next_stages [OF tw] by (simp only: f sum.case)
  have s: "instant ` set ?kept = surviving today (map instant ds)" by (rule instants_kept)
  from result_of_kept [OF s] obtain r where
    r: "(case py_min ?kept of Inr m \<Rightarrow> Inr (Some m)
         | Inl e \<Rightarrow> if is_ValueError e then Inr None else Inl e) = Inr r"
    and i: "map_option instant r = reference_estimate today (map instant ds)"
    and c: "(case r of None \<Rightarrow> True | Some c \<Rightarrow> c \<in> set ?kept)"
    unfolding reference_estimate_def by blast
  from c have "(case r of None \<Rightarrow> True | Some c \<Rightarrow> kind_of c \<in> kind_of ` set ds)"
    by (cases r) auto
  with e r i show ?thesis by simp
qed

lemma uniform_kind: "list_all (\<lambda>d. kind_of d = k) (map (Date k) ts)"
  by (simp add: list_all_iff)

lemma estimate_next_uniform:
  assumes "list_all projectable (map (Date k) ts)"
  shows "estimate_next today (map (Date k) ts) = Inr (map_option (Date k) (reference_estimate today ts))"
proof -
  from estimate_next_in_range [OF assms, of today] obtain r where
    e: "estimate_next today (map (Date k) ts) = Inr r"
    and i: "map_option instant r = reference_estimate today (map instant (map (Date k) ts))"
    and c: "(case r of None \<Rightarrow> True | Some c \<Rightarrow> kind_of c \<in> kind_of ` set (map (Date k) ts))"
    by blast
  have "map instant (map (Date k) ts) = ts" by (simp add: comp_def)
  with i have i': "map_option instant r = reference_estimate today ts" by simp
  have "r = map_option (Date k) (reference_estimate today ts)"
  proof (cases r)
    case None
    with i' show ?thesis by simp
  next
    case (Some c)
    with c have "kind_of c = k" by auto
    moreover from Some i' have "reference_estimate today ts = Some (instant c)" by simp
    ultimately show ?thesis using Some by (cases c) simp
  qed
  with e show ?thesis by simp
qed

lemma estimate_next_overflow:
  assumes "\<not> list_all projectable (map (Date k) ts)"
  shows "estimate_next today (map (Date k) ts) =
     (if list_all projectable_twice (map (Date k) ts)
      then (if is_ValueError (out_of_range k) then Inr None else Inl (out_of_range k))
      else Inl (out_of_range k))"
proof (cases "list_all projectable_twice (map (Date k) ts)")
  case False
  let ?ds = "map (Date k) ts"
  show ?thesis
  proof (cases "list_all (addable (timedelta 365)) ?ds")
    case f1: False
    from mapM_dt_add_fail [OF uniform_kind f1] False show ?thesis
      by (simp add: estimate_next_def)
  next
    case t1: True
    with False have f2: "\<not> list_all (addable (timedelta 730)) ?ds"
      by (auto simp: list_all_iff projectable_twice_addable)
    from t1 have "mapM (\<lambda>i. dt_add i (timedelta 365)) ?ds = Inr (map (shift (timedelta 365)) ?ds)"
      by (simp add: mapM_dt_add_iff)
    with mapM_dt_add_fail [OF uniform_kind f2] False show ?thesis
      by (simp add: estimate_next_def)
  qed
next
  case True
  let ?ds = "map (Date k) ts"
  let ?gs = "map (shift (timedelta 365)) ?ds @ map (shift (timedelta 730)) ?ds"
  from True assms have "\<not> list_all (addable (timedelta 365)) ?gs"
    unfolding guesses_addable
    by (auto simp: list_all_iff projectable_addable projectable_twice_addable)
  moreover have "list_all (\<lambda>d. kind_of d = k) ?gs" by (auto simp: list_all_iff)
  ultimately have "filterM (later today (timedelta 365)) ?gs = Inl (out_of_range k)"
    by (intro filterM_later_fail)
  with True show ?thesis by (simp add: estimate_next_stages [OF True])
qed

lemma projectable_in_range:
  "in_range k t \<Longrightarrow> projectable (Date k t) = in_range k (t + timedelta 1095)"
  by (cases k) (auto simp: timedelta_def us_per_day_def)

lemma estimate_next_example:
  assumes "0 \<le> s" and "s < us_per_day"
  shows "estimate_next (midnight 2024 6 1 + s) [Date k (midnight 2023 2 1)]
           = Inr (Some (Date k (midnight 2024 2 1)))"
  using assms by (cases k) (simp_all add: estimate_next_def later_def calendar_arith)

lemma estimate_next_returned:
  assumes "estimate_next today ds = Inr (Some c)"
  shows "today < instant c + timedelta 365 \<and> instant c \<in> candidates (map instant ds)"
proof -
  let ?gs = "map (shift (timedelta 365)) ds @ map (shift (timedelta 730)) ds"
  from assms obtain g1 where g1: "mapM (\<lambda>i. dt_add i (timedelta 365)) ds = Inr g1"
    by (auto simp: estimate_next_def split: sum.splits)
  with assms obtain g2 where g2: "mapM (\<lambda>i. dt_add i (timedelta 730)) ds = Inr g2"
    by (auto simp: estimate_next_def split: sum.splits)
  from g1 g2 have gs: "g1 @ g2 = ?gs" by (simp add: mapM_dt_add_iff)
  from assms g1 g2 obtain kept where k: "filterM (later today (timedelta 365)) (g1 @ g2) = Inr kept"
    and m: "py_min kept = Inr c"
    by (auto simp: estimate_next_def split: sum.splits if_splits)
  from k gs have keq: "kept = filter (\<lambda>i. today < instant i + timedelta 365) ?gs"
    by (simp add: filterM_later_iff)
  from py_min_least [OF m] have "c \<in> set kept" by blast
  with keq have "c \<in> set ?gs \<and> today < instant c + timedelta 365" by auto
  then show ?thesis by (auto simp: candidates_def)
qed

section \<open>The estimator against its specification\<close>

text \<open>
  Claim C1, as amended. On a list of dates of one class whose 365-, 730- and 1095-day
  projections all stay in the range of the class, \<open>estimate_next\<close> returns the
  reference estimate (the least candidate among the dates moved 365 and 730 days on
  whose own 365-day projection is strictly after today, or no estimate when there is
  none), in that class; for a date in range that is so exactly when its 1095-day
  projection is in range. On any other list it does not compute the reference: a list
  of \<open>datetime\<close> objects raises \<open>OverflowError\<close>; a list of timestamps, which is
  what \<open>load_calendar\<close> passes, raises \<open>OutOfBoundsDatetime\<close> when a projection of
  line 74 or 75 is out of range, and otherwise returns no estimate, the exception of
  the generator being a \<open>ValueError\<close> that line 79 catches. On a list of mixed classes
  with all projections in range the instant of the result is the reference estimate.
  On the empty list it returns no estimate. On 2023-02-01, of either class, read at
  any time of 2024-06-01, it returns 2024-02-01.
\<close>

theorem estimate_next_refines_reference:
  "(list_all projectable (map (Date k) ts) \<longrightarrow>
      estimate_next today (map (Date k) ts)
        = Inr (map_option (Date k) (reference_estimate today ts)))
   \<and> (\<forall>t. in_range k t \<longrightarrow> projectable (Date k t) = in_range k (t + timedelta 1095))
   \<and> (\<not> list_all projectable (map (Date PyDatetime) ts) \<longrightarrow>
      estimate_next today (map (Date PyDatetime) ts) = Inl OverflowError)
   \<and> (\<not> list_all projectable (map (Date PdTimestamp) ts) \<longrightarrow>
      estimate_next today (map (Date PdTimestamp) ts)
        = (if list_all projectable_twice (map (Date PdTimestamp) ts)
           then Inr None else Inl OutOfBoundsDatetime))
   \<and> (list_all projectable ds \<longrightarrow>
      (\<exists>r. estimate_next today ds = Inr r
         \<and> map_option instant r = reference_estimate today (map instant ds)))
   \<and> estimate_next today [] = Inr None
   \<and> (\<forall>s. 0 \<le> s \<and> s < us_per_day \<longrightarrow>
         estimate_next (midnight 2024 6 1 + s) [Date k (midnight 2023 2 1)]
           = Inr (Some (Date k (midnight 2024 2 1))))"
proof (intro conjI allI impI)
  assume "list_all projectable (map (Date k) ts)"
  then show "estimate_next today (map (Date k) ts)
        = Inr (map_option (Date k) (reference_estimate today ts))"
    by (rule estimate_next_uniform)
next
  fix t assume "in_range k t"
  then show "projectable (Date k t) = in_range k (t + timedelta 1095)"
    by (rule projectable_in_range)
next
  assume "\<not> list_all projectable (map (Date PyDatetime) ts)"
  from estimate_next_overflow [OF this, of today]
  show "estimate_next today (map (Date PyDatetime) ts) = Inl OverflowError"
    by (simp add: is_ValueError_def)
next
  assume "\<not> list_all projectable (map (Date PdTimestamp) ts)"
  from estimate_next_overflow [OF this, of today]
  show "estimate_next today (map (Date PdTimestamp) ts)
        = (if list_all projectable_twice (map (Date PdTimestamp) ts)
           then Inr None else Inl OutOfBoundsDatetime)"
    by (simp add: is_ValueError_def)
next
  assume "list_all projectable ds"
  from estimate_next_in_range [OF this, of today]
  show "\<exists>r. estimate_next today ds = Inr r
         \<and> map_option instant r = reference_estimate today (map instant ds)"
    by blast
next
  show "estimate_next today [] = Inr None"
    by (simp add: estimate_next_def is_ValueError_def)
next
  fix s :: int assume "0 \<le> s \<and> s < us_per_day"
  then show "estimate_next (midnight 2024 6 1 + s) [Date k (midnight 2023 2 1)]
           = Inr (Some (Date k (midnight 2024 2 1)))"
    by (simp add: estimate_next_example)
qed

lemma timestamps_of_example:
  shows "list_all projectable (map (Date PdTimestamp) [midnight 2023 2 1])"
    and "\<not> list_all projectable (map (Date PdTimestamp) [midnight 2259 6 1])"
    and "list_all projectable_twice (map (Date PdTimestamp) [midnight 2259 6 1])"
    and "reference_estimate (midnight 2024 6 1) [midnight 2023 2 1] = Some (midnight 2024 2 1)"
    and "reference_estimate (midnight 2024 6 1) [midnight 2259 6 1] = Some (midnight 2260 5 31)"
  by code_simp+

text \<open>
  The theorem on two lists of timestamps: the specification's example, where the
  estimate is the reference estimate 2024-02-01, and a report of 2259-06-01, whose
  1095-day projection is past the last timestamp, so that there is no estimate
  although the reference estimate is 2260-05-31.
\<close>

theorem estimate_next_refines_reference_witness:
  "list_all projectable (map (Date PdTimestamp) [midnight 2023 2 1])
   \<and> estimate_next (midnight 2024 6 1) (map (Date PdTimestamp) [midnight 2023 2 1])
       = Inr (map_option (Date PdTimestamp) (reference_estimate (midnight 2024 6 1) [midnight 2023 2 1]))
   \<and> reference_estimate (midnight 2024 6 1) [midnight 2023 2 1] = Some (midnight 2024 2 1)
   \<and> \<not> list_all projectable (map (Date PdTimestamp) [midnight 2259 6 1])
   \<and> estimate_next (midnight 2024 6 1) (map (Date PdTimestamp) [midnight 2259 6 1]) = Inr None
   \<and> reference_estimate (midnight 2024 6 1) [midnight 2259 6 1] = Some (midnight 2260 5 31)"
proof -
  note p = timestamps_of_example(1) and n = timestamps_of_example(2)
    and tw = timestamps_of_example(3) and r1 = timestamps_of_example(4)
    and r2 = timestamps_of_example(5)
  have "list_all projectable (map (Date PdTimestamp) [midnight 2023 2 1]) \<longrightarrow>
      estimate_next (midnight 2024 6 1) (map (Date PdTimestamp) [midnight 2023 2 1])
        = Inr (map_option (Date PdTimestamp) (reference_estimate (midnight 2024 6 1) [midnight 2023 2 1]))"
    by (rule conjunct1 [OF estimate_next_refines_reference
          [where ts = "[midnight 2023 2 1]" and today = "midnight 2024 6 1" and k = PdTimestamp]])
  from this p have e1: "estimate_next (midnight 2024 6 1) (map (Date PdTimestamp) [midnight 2023 2 1])
        = Inr (map_option (Date PdTimestamp) (reference_estimate (midnight 2024 6 1) [midnight 2023 2 1]))"
    by (rule mp)
  have "\<not> list_all projectable (map (Date PdTimestamp) [midnight 2259 6 1]) \<longrightarrow>
      estimate_next (midnight 2024 6 1) (map (Date PdTimestamp) [midnight 2259 6 1])
        = (if list_all projectable_twice (map (Date PdTimestamp) [midnight 2259 6 1])
           then Inr None else Inl OutOfBoundsDatetime)"
    by (rule conjunct1 [OF conjunct2 [OF conjunct2 [OF conjunct2
          [OF estimate_next_refines_reference
            [where ts = "[midnight 2259 6 1]" and today = "midnight 2024 6 1"]]]]])
  from this n have "estimate_next (midnight 2024 6 1) (map (Date PdTimestamp) [midnight 2259 6 1])
        = (if list_all projectable_twice (map (Date PdTimestamp) [midnight 2259 6 1])
           then Inr None else Inl OutOfBoundsDatetime)"
    by (rule mp)
  with tw have e2: "estimate_next (midnight 2024 6 1) (map (Date PdTimestamp) [midnight 2259 6 1]) = Inr None"
    by (simp only: if_True)
  from p e1 r1 n e2 r2 show ?thesis by (intro conjI)
qed

text \<open>
  Claim C1 as stated says that the function returns the reference estimate for every
  list of dates. For a \<open>datetime\<close> in the last three years of the calendar the
  projection \<open>i + timedelta(days=365)\<close> of line 74 is out of range, and the
  \<open>OverflowError\<close> is not a \<open>ValueError\<close>, so nothing catches it. For the timestamp
  2259-06-01 the function returns no estimate where the reference has one.
\<close>

theorem estimate_next_total_counterexample:
  "in_range PyDatetime (midnight 9999 1 1)
   \<and> estimate_next (midnight 2024 6 1) [Date PyDatetime (midnight 9999 1 1)] = Inl OverflowError
   \<and> in_range PdTimestamp (midnight 2259 6 1)
   \<and> estimate_next (midnight 2024 6 1) [Date PdTimestamp (midnight 2259 6 1)] = Inr None
   \<and> reference_estimate (midnight 2024 6 1) [midnight 2259 6 1] = Some (midnight 2260 5 31)"
  by code_simp

text \<open>
  Claim C6, as amended. An estimate that is not null is strictly later than today
  minus 365 days (the allowance of the filter of line 78), and it is one of the
  candidates.
\<close>

theorem estimate_next_within_a_year:
  assumes "estimate_next today ds = Inr (Some c)"
  shows "today - timedelta 365 < instant c \<and> instant c \<in> candidates (map instant ds)"
  using estimate_next_returned [OF assms] by simp

text \<open>
  The theorem at the specification's example.
\<close>

theorem estimate_next_within_a_year_witness:
  "estimate_next (midnight 2024 6 1) [Date PyDatetime (midnight 2023 2 1)]
     = Inr (Some (Date PyDatetime (midnight 2024 2 1)))
   \<and> midnight 2024 6 1 - timedelta 365 < instant (Date PyDatetime (midnight 2024 2 1))
   \<and> instant (Date PyDatetime (midnight 2024 2 1))
       \<in> candidates (map instant [Date PyDatetime (midnight 2023 2 1)])"
proof -
  have e: "estimate_next (midnight 2024 6 1) [Date PyDatetime (midnight 2023 2 1)]
     = Inr (Some (Date PyDatetime (midnight 2024 2 1)))"
    using estimate_next_example [of 0 PyDatetime] by (simp add: us_per_day_def)
  from estimate_next_within_a_year [OF e] e show ?thesis by (intro conjI) simp_all
qed

text \<open>
  Claim C6 as stated allows one day. The specification's own example is 121 days in
  the past: 2024-02-01, estimated on 2024-06-01.
\<close>

theorem estimate_next_one_day_counterexample:
  "estimate_next (midnight 2024 6 1) [Date PyDatetime (midnight 2023 2 1)]
     = Inr (Some (Date PyDatetime (midnight 2024 2 1)))
   \<and> midnight 2024 2 1 + timedelta 121 = midnight 2024 6 1
   \<and> midnight 2024 2 1 \<le> midnight 2024 6 1 - timedelta 1"
  by code_simp

section \<open>The symbol list\<close>

lemma load_symbol_list_faves:
  "''faves'' \<in> set groups \<Longrightarrow>
   load_symbol_list dflt (Some groups) arg sp500 = load_symbol_list dflt (Some [''faves'']) arg other"
  by (simp add: load_symbol_list_def)

lemma load_symbol_list_dji:
  "''faves'' \<notin> set groups \<Longrightarrow> ''dji'' \<in> set groups \<Longrightarrow>
   load_symbol_list dflt (Some groups) arg sp500 = load_symbol_list dflt (Some [''dji'']) arg other"
  by (simp add: load_symbol_list_def)

lemma load_symbol_list_sp:
  "''faves'' \<notin> set groups \<Longrightarrow> ''dji'' \<notin> set groups \<Longrightarrow> ''sp'' \<in> set groups \<Longrightarrow>
   load_symbol_list dflt (Some groups) arg sp500 = load_symbol_list dflt (Some [''sp'']) arg sp500"
  by (simp add: load_symbol_list_def)

lemma load_symbol_list_no_group:
  "''faves'' \<notin> set groups \<Longrightarrow> ''dji'' \<notin> set groups \<Longrightarrow> ''sp'' \<notin> set groups \<Longrightarrow>
   load_symbol_list dflt (Some groups) arg sp500 = load_symbol_list dflt (Some []) arg other"
  by (simp add: load_symbol_list_def)

lemma load_symbol_list_added:
  "fst (snd (load_symbol_list dflt (Some groups) arg sp500)) =
     (case arg of None \<Rightarrow> dflt | Some s \<Rightarrow> s) @
     (if ''faves'' \<in> set groups then faves_components
      else if ''dji'' \<in> set groups then dji_components
      else if ''sp'' \<in> set groups then (case sp500 of Inl e \<Rightarrow> [] | Inr ws \<Rightarrow> ws)
      else [])"
  by (simp add: load_symbol_list_def Let_def split: sum.splits)

text \<open>
  Claim C9. The groups form a priority chain. With \<open>faves\<close> among the groups the call
  is the call with \<open>faves\<close> alone, whatever else is listed and whatever the S&P table
  would give, and the list grows by the faves components only; without \<open>faves\<close> but
  with \<open>dji\<close> it is the call with \<open>dji\<close> alone and the list grows by the Dow components
  only; \<open>sp\<close> counts only when both are missing; with none of the three the list does
  not grow. So at most one group contributes.
\<close>

theorem load_symbol_list_priority:
  "(''faves'' \<in> set groups \<longrightarrow>
      load_symbol_list dflt (Some groups) arg sp500 = load_symbol_list dflt (Some [''faves'']) arg other
      \<and> fst (snd (load_symbol_list dflt (Some groups) arg sp500))
          = (case arg of None \<Rightarrow> dflt | Some s \<Rightarrow> s) @ faves_components)
   \<and> (''faves'' \<notin> set groups \<and> ''dji'' \<in> set groups \<longrightarrow>
      load_symbol_list dflt (Some groups) arg sp500 = load_symbol_list dflt (Some [''dji'']) arg other
      \<and> fst (snd (load_symbol_list dflt (Some groups) arg sp500))
          = (case arg of None \<Rightarrow> dflt | Some s \<Rightarrow> s) @ dji_components)
   \<and> (''faves'' \<notin> set groups \<and> ''dji'' \<notin> set groups \<and> ''sp'' \<in> set groups \<longrightarrow>
      load_symbol_list dflt (Some groups) arg sp500 = load_symbol_list dflt (Some [''sp'']) arg sp500
      \<and> fst (snd (load_symbol_list dflt (Some groups) arg sp500))
          = (case arg of None \<Rightarrow> dflt | Some s \<Rightarrow> s) @ (case sp500 of Inl e \<Rightarrow> [] | Inr ws \<Rightarrow> ws))
   \<and> (''faves'' \<notin> set groups \<and> ''dji'' \<notin> set groups \<and> ''sp'' \<notin> set groups \<longrightarrow>
      load_symbol_list dflt (Some groups) arg sp500 = load_symbol_list dflt (Some []) arg other
      \<and> fst (snd (load_symbol_list dflt (Some groups) arg sp500))
          = (case arg of None \<Rightarrow> dflt | Some s \<Rightarrow> s))"
proof (intro conjI impI)
  assume a: "''faves'' \<in> set groups"
  then show "load_symbol_list dflt (Some groups) arg sp500 = load_symbol_list dflt (Some [''faves'']) arg other"
    by (rule load_symbol_list_faves)
  from a show "fst (snd (load_symbol_list dflt (Some groups) arg sp500))
          = (case arg of None \<Rightarrow> dflt | Some s \<Rightarrow> s) @ faves_components"
    by (simp add: load_symbol_list_added)
next
  assume a: "''faves'' \<notin> set groups \<and> ''dji'' \<in> set groups"
  then show "load_symbol_list dflt (Some groups) arg sp500 = load_symbol_list dflt (Some [''dji'']) arg other"
    by (intro load_symbol_list_dji) simp_all
  from a show "fst (snd (load_symbol_list dflt (Some groups) arg sp500))
          = (case arg of None \<Rightarrow> dflt | Some s \<Rightarrow> s) @ dji_components"
    by (simp add: load_symbol_list_added)
next
  assume a: "''faves'' \<notin> set groups \<and> ''dji'' \<notin> set groups \<and> ''sp'' \<in> set groups"
  then show "load_symbol_list dflt (Some groups) arg sp500 = load_symbol_list dflt (Some [''sp'']) arg sp500"
    by (intro load_symbol_list_sp) simp_all
  from a show "fst (snd (load_symbol_list dflt (Some groups) arg sp500))
          = (case arg of None \<Rightarrow> dflt | Some s \<Rightarrow> s) @ (case sp500 of Inl e \<Rightarrow> [] | Inr ws \<Rightarrow> ws)"
    by (simp add: load_symbol_list_added)
next
  assume a: "''faves'' \<notin> set groups \<and> ''dji'' \<notin> set groups \<and> ''sp'' \<notin> set groups"
  then show "load_symbol_list dflt (Some groups) arg sp500 = load_symbol_list dflt (Some []) arg other"
    by (intro load_symbol_list_no_group) simp_all
  from a show "fst (snd (load_symbol_list dflt (Some groups) arg sp500))
          = (case arg of None \<Rightarrow> dflt | Some s \<Rightarrow> s)"
    by (simp add: load_symbol_list_added)
qed

lemma faves_nonempty: "faves_components \<noteq> []"
  by (simp add: faves_components_def)

text \<open>
  The theorem on a call that lists all three groups, \<open>faves\<close> last: the result is the
  explicit symbol with the faves components, and neither the S&P symbol \<open>zts\<close> nor the
  Dow symbol \<open>v\<close> is in it.
\<close>

theorem load_symbol_list_priority_witness:
  "''faves'' \<in> set [''sp'', ''dji'', ''faves'']
   \<and> load_symbol_list [] (Some [''sp'', ''dji'', ''faves'']) (Some [''spy'']) (Inr [''zts''])
       = (Inr (set ([''spy''] @ faves_components)), [''spy''] @ faves_components, [])
   \<and> ''zts'' \<notin> set ([''spy''] @ faves_components)
   \<and> ''v'' \<notin> set ([''spy''] @ faves_components)"
proof -
  have m: "''faves'' \<in> set [''sp'', ''dji'', ''faves'']" by simp
  have "''faves'' \<in> set [''sp'', ''dji'', ''faves''] \<longrightarrow>
      load_symbol_list [] (Some [''sp'', ''dji'', ''faves'']) (Some [''spy'']) (Inr [''zts''])
        = load_symbol_list [] (Some [''faves'']) (Some [''spy'']) (Inl ValueError)
      \<and> fst (snd (load_symbol_list [] (Some [''sp'', ''dji'', ''faves'']) (Some [''spy'']) (Inr [''zts''])))
          = (case Some [''spy''] of None \<Rightarrow> [] | Some s \<Rightarrow> s) @ faves_components"
    by (rule conjunct1 [OF load_symbol_list_priority])
  from this m have "load_symbol_list [] (Some [''sp'', ''dji'', ''faves'']) (Some [''spy'']) (Inr [''zts''])
        = load_symbol_list [] (Some [''faves'']) (Some [''spy'']) (Inl ValueError)
      \<and> fst (snd (load_symbol_list [] (Some [''sp'', ''dji'', ''faves'']) (Some [''spy'']) (Inr [''zts''])))
          = (case Some [''spy''] of None \<Rightarrow> [] | Some s \<Rightarrow> s) @ faves_components"
    by (rule mp)
  then have "load_symbol_list [] (Some [''sp'', ''dji'', ''faves'']) (Some [''spy'']) (Inr [''zts''])
        = load_symbol_list [] (Some [''faves'']) (Some [''spy'']) (Inl ValueError)"
    by (rule conjunct1)
  also have "\<dots> = (Inr (set ([''spy''] @ faves_components)), [''spy''] @ faves_components, [])"
    by (simp add: load_symbol_list_def faves_nonempty)
  finally have e: "load_symbol_list [] (Some [''sp'', ''dji'', ''faves'']) (Some [''spy'']) (Inr [''zts''])
       = (Inr (set ([''spy''] @ faves_components)), [''spy''] @ faves_components, [])" .
  have n: "''zts'' \<notin> set ([''spy''] @ faves_components)" "''v'' \<notin> set ([''spy''] @ faves_components)"
    by (simp_all add: faves_components_def)
  from m e n show ?thesis by (intro conjI)
qed

text \<open>
  Claim C10. The default list of \<open>symbols\<close> survives the call. From a fresh
  interpreter, \<open>load_symbol_list(groups=["faves"])\<close> leaves the faves components in the
  default object; a later \<open>load_symbol_list(groups=["dji"])\<close> then returns the faves
  and the Dow components together, whereas the same call in a fresh interpreter
  returns the Dow components alone. The two results differ: \<open>fb\<close> is in one and not
  in the other.
\<close>

theorem load_symbol_list_default_accumulates:
  "snd (snd (load_symbol_list [] (Some [''faves'']) None sp500)) = faves_components
   \<and> fst (load_symbol_list faves_components (Some [''dji'']) None sp500)
       = Inr (set faves_components \<union> set dji_components)
   \<and> fst (load_symbol_list [] (Some [''dji'']) None sp500) = Inr (set dji_components)
   \<and> ''fb'' \<in> set faves_components \<union> set dji_components
   \<and> ''fb'' \<notin> set dji_components"
  by (simp add: load_symbol_list_def faves_components_def dji_components_def)

section \<open>The event loaders and the calendar\<close>



lemma io_bindE:
  assumes "io_bind m f tr = (Inr y, tr')"
  obtains x tr1 where "m tr = (Inr x, tr1)" and "f x tr1 = (Inr y, tr')"
  using assms by (auto simp: io_bind_def split: prod.splits sum.splits)

lemma askE:
  assumes "ask ev answer tr = (Inr x, tr')"
  obtains "answer tr = Inr x" and "tr' = tr @ [ev]"
  using assms by (simp add: ask_def)

lemma io_liftE:
  assumes "io_lift r tr = (Inr x, tr')"
  obtains "r = Inr x" and "tr' = tr"
  using assms by (simp add: io_lift_def)

lemma io_returnE:
  assumes "io_return y tr = (Inr x, tr')"
  obtains "x = y" and "tr' = tr"
  using assms by (simp add: io_return_def)

lemma earnings_frame_no_records:
  "earnings_frame table [(''symbol'', JText s), (''earnings'', JRecords [])] = Inl KeyError"
  by (simp add: earnings_frame_def dict_get_def parse_columns_def has_columns_def frame_columns_def)

lemma earnings_frame_empty_object: "earnings_frame table [] = Inl KeyError"
  by (simp add: earnings_frame_def dict_get_def)

lemma dividends_frame_absent:
  "''exDate'' \<notin> set (frame_columns rs) \<Longrightarrow> dividends_frame table rs = Inr None"
  by (simp add: dividends_frame_def)

lemma dividends_frame_empty: "dividends_frame table [] = Inr None"
  by (simp add: dividends_frame_def frame_columns_def)

text \<open>
  Claim C2 (the code departs from it). For a body with no earnings record, and for the
  empty object, \<open>load_earnings\<close> raises \<open>KeyError\<close>: there is no column to select in
  line 115, or no member \<open>earnings\<close> in line 114. \<open>load_dividends\<close> has the guard
  that \<open>load_earnings\<close> lacks: for a body with no record, or with records that have no
  \<open>exDate\<close>, it returns \<open>None\<close>.
\<close>

theorem load_earnings_raises_on_no_records:
  "load_earnings (env\<lparr>get_earnings := \<lambda>tr s. Inr [(''symbol'', JText (ascii s)), (''earnings'', JRecords [])]\<rparr>)
       symbol tr = (Inl KeyError, tr @ [Earnings symbol])
   \<and> load_earnings (env\<lparr>get_earnings := \<lambda>tr s. Inr []\<rparr>) symbol tr
       = (Inl KeyError, tr @ [Earnings symbol])
   \<and> load_dividends (env\<lparr>get_dividends := \<lambda>tr s. Inr []\<rparr>) symbol tr
       = (Inr None, tr @ [Dividends symbol])
   \<and> load_dividends (env\<lparr>get_dividends := \<lambda>tr s. Inr [[(''amount'', JNum n)]]\<rparr>) symbol tr
       = (Inr None, tr @ [Dividends symbol])"
  by (simp add: load_earnings_def load_dividends_def io_bind_def ask_def io_lift_def
      earnings_frame_no_records earnings_frame_empty_object dividends_frame_empty
      dividends_frame_def frame_columns_def)

text \<open>
  Claim C3 (the code departs from it). For a symbol with no earnings record and no
  dividend record \<open>load_calendar\<close> raises the \<open>KeyError\<close> of \<open>load_earnings\<close>, before
  it asks for the dividends; no calendar is built.
\<close>

theorem load_calendar_raises_on_no_records:
  "load_calendar
     (env\<lparr>get_earnings := \<lambda>tr s. Inr [(''symbol'', JText (ascii s)), (''earnings'', JRecords [])],
          get_dividends := \<lambda>tr s. Inr []\<rparr>) symbol tr
     = (Inl KeyError, tr @ [Today, Earnings symbol])"
  by (simp add: load_calendar_def load_earnings_def io_bind_def ask_def io_lift_def
      earnings_frame_no_records)

lemma mapM_length: "mapM f xs = Inr ys \<Longrightarrow> length ys = length xs"
proof (induction xs arbitrary: ys)
  case Nil
  then show ?case by simp
next
  case (Cons x xs)
  then show ?case by (auto split: sum.splits)
qed

lemma has_columns_records: "has_columns (c # cols) rs \<Longrightarrow> rs \<noteq> []"
  by (auto simp: has_columns_def frame_columns_def)

lemma parse_columns_shape:
  assumes "parse_columns table cols rs = Inr parsed" and "i < length cols"
  shows "rs \<noteq> [] \<and> length (parsed ! i) = length rs"
proof -
  from assms(1) have h: "has_columns cols rs"
    and m: "mapM (\<lambda>c. mapM (\<lambda>r. parsedate table (cell r c)) rs) cols = Inr parsed"
    by (auto simp: parse_columns_def split: if_splits)
  from assms(2) h have ne: "rs \<noteq> []" by (cases cols) (auto dest: has_columns_records)
  have "\<And>parsed i. mapM (\<lambda>c. mapM (\<lambda>r. parsedate table (cell r c)) rs) cols = Inr parsed
      \<Longrightarrow> i < length cols \<Longrightarrow> length (parsed ! i) = length rs"
  proof (induction cols)
    case Nil
    then show ?case by simp
  next
    case (Cons c cols)
    from Cons.prems(1) obtain p ps where p: "mapM (\<lambda>r. parsedate table (cell r c)) rs = Inr p"
      and ps: "mapM (\<lambda>c. mapM (\<lambda>r. parsedate table (cell r c)) rs) cols = Inr ps"
      and e: "parsed = p # ps"
      by (auto split: sum.splits)
    show ?case
    proof (cases i)
      case 0
      with e mapM_length [OF p] show ?thesis by simp
    next
      case (Suc j)
      with Cons.prems(2) have "j < length cols" by simp
      with Cons.IH [OF ps] e Suc show ?thesis by simp
    qed
  qed
  from this [OF m assms(2)] ne show ?thesis by simp
qed

lemma set_index_rows: "rs \<noteq> [] \<Longrightarrow> length labels = length rs \<Longrightarrow> frame_rows (set_index labels rs) \<noteq> []"
  by (cases rs; cases labels) (simp_all add: set_index_def)

lemma earnings_frame_rows:
  assumes "earnings_frame table result = Inr (Some ef)"
  shows "frame_rows ef \<noteq> []"
proof -
  from assms obtain rs parsed where
    p: "parse_columns table [''EPSReportDate'', ''fiscalEndDate''] rs = Inr parsed"
    and ef: "ef = set_index (hd parsed) rs"
    by (auto simp: earnings_frame_def split: option.splits jmember.splits sum.splits)
  from parse_columns_shape [OF p, of 0] have s: "rs \<noteq> []" "length (parsed ! 0) = length rs"
    by simp_all
  from p have "mapM (\<lambda>c. mapM (\<lambda>r. parsedate table (cell r c)) rs)
      [''EPSReportDate'', ''fiscalEndDate''] = Inr parsed"
    by (simp add: parse_columns_def split: if_splits)
  from mapM_length [OF this] have "parsed \<noteq> []" by auto
  with s have "length (hd parsed) = length rs" by (simp add: hd_conv_nth)
  with ef s show ?thesis by (simp add: set_index_rows)
qed

lemma dividends_frame_rows:
  assumes "dividends_frame table rs = Inr (Some df)"
  shows "frame_rows df \<noteq> []"
proof -
  from assms obtain parsed where
    p: "parse_columns table [''declaredDate'', ''exDate'', ''paymentDate'', ''recordDate''] rs = Inr parsed"
    and df: "df = set_index (parsed ! 1) rs"
    by (auto simp: dividends_frame_def split: if_splits sum.splits)
  from parse_columns_shape [OF p, of 1] have "rs \<noteq> []" "length (parsed ! 1) = length rs" by simp_all
  with df show ?thesis by (simp add: set_index_rows)
qed

lemma load_earnings_returns:
  assumes "load_earnings env symbol tr = (Inr earnings, tr')"
  shows "tr' = tr @ [Earnings symbol] \<and> (\<exists>ef. earnings = Some ef \<and> frame_rows ef \<noteq> [])"
proof -
  from assms obtain result tr1 where
    a: "ask (Earnings symbol) (\<lambda>tr. get_earnings env tr symbol) tr = (Inr result, tr1)"
    and b: "io_lift (earnings_frame (unicode_decimal env) result) tr1 = (Inr earnings, tr')"
    unfolding load_earnings_def by (auto elim: io_bindE)
  from a have t: "tr1 = tr @ [Earnings symbol]" by (auto elim: askE)
  from b have t': "tr' = tr1" and f: "earnings_frame (unicode_decimal env) result = Inr earnings"
    by (auto elim: io_liftE)
  from f obtain ef where ef: "earnings = Some ef"
    by (auto simp: earnings_frame_def split: option.splits jmember.splits sum.splits)
  with f have "frame_rows ef \<noteq> []" by (simp add: earnings_frame_rows)
  with t t' ef show ?thesis by simp
qed

lemma load_dividends_returns:
  assumes "load_dividends env symbol tr = (Inr dividends, tr')"
  shows "tr' = tr @ [Dividends symbol]
     \<and> (case dividends of None \<Rightarrow> True | Some df \<Rightarrow> frame_rows df \<noteq> [])"
proof -
  from assms obtain body tr1 where
    a: "ask (Dividends symbol) (\<lambda>tr. get_dividends env tr symbol) tr = (Inr body, tr1)"
    and b: "io_lift (dividends_frame (unicode_decimal env) body) tr1 = (Inr dividends, tr')"
    unfolding load_dividends_def by (auto elim: io_bindE)
  from a have "tr1 = tr @ [Dividends symbol]" by (auto elim: askE)
  moreover from b have "tr' = tr1" and f: "dividends_frame (unicode_decimal env) body = Inr dividends"
    by (auto elim: io_liftE)
  moreover from f have "(case dividends of None \<Rightarrow> True | Some df \<Rightarrow> frame_rows df \<noteq> [])"
    by (cases dividends) (simp_all add: dividends_frame_rows)
  ultimately show ?thesis by simp
qed

lemma estimate_next_now_returns:
  assumes "estimate_next_now env ds tr = (Inr next, tr')"
  shows "tr' = tr @ [Today] \<and> estimate_next (clock env tr) ds = Inr next"
proof -
  from assms obtain today tr1 where
    a: "ask Today (\<lambda>tr. Inr (clock env tr)) tr = (Inr today, tr1)"
    and b: "io_lift (estimate_next today ds) tr1 = (Inr next, tr')"
    unfolding estimate_next_now_def by (auto elim: io_bindE)
  from a have "today = clock env tr" "tr1 = tr @ [Today]" by (auto elim: askE)
  moreover from b have "tr' = tr1" "estimate_next today ds = Inr next" by (auto elim: io_liftE)
  ultimately show ?thesis by simp
qed

lemma estimate_next_now_eq:
  "estimate_next_now env ds tr = (estimate_next (clock env tr) ds, tr @ [Today])"
  by (simp add: estimate_next_now_def io_bind_def ask_def io_lift_def)

lemma instants_of_index: "instant ` set (frame_index df) = fst ` set (frame_rows df)"
  by (simp add: frame_index_def image_image)

lemma py_max_index:
  assumes "py_max (frame_index df) = Inr m"
  shows "frame_rows df \<noteq> [] \<and> m = Date (index_kind df) (Max (fst ` set (frame_rows df)))"
proof -
  from py_max_greatest [OF assms] have ms: "m \<in> set (frame_index df)"
    and mi: "instant m = Max (instant ` set (frame_index df))" by simp_all
  from ms have "kind_of m = index_kind df" "frame_rows df \<noteq> []"
    by (auto simp: frame_index_def)
  with mi show ?thesis by (cases m) (simp add: instants_of_index)
qed

lemma py_max_index_total:
  "frame_rows df \<noteq> [] \<Longrightarrow>
   py_max (frame_index df) = Inr (Date (index_kind df) (Max (fst ` set (frame_rows df))))"
proof -
  assume ne: "frame_rows df \<noteq> []"
  then have "frame_index df \<noteq> []" by (simp add: frame_index_def)
  then obtain m where m: "py_max (frame_index df) = Inr m" using py_max_total by blast
  with py_max_index [OF m] show ?thesis by simp
qed

lemma rows_on_greatest:
  assumes "frame_rows df \<noteq> []"
  shows "filter (\<lambda>row. fst row = Max (fst ` set (frame_rows df))) (frame_rows df) \<noteq> []"
proof -
  from assms have "Max (fst ` set (frame_rows df)) \<in> fst ` set (frame_rows df)"
    by (intro Max_in) simp_all
  then obtain row where "row \<in> set (frame_rows df)" "fst row = Max (fst ` set (frame_rows df))"
    by auto
  then show ?thesis by (auto simp: filter_empty_conv)
qed

lemma loc_rows:
  assumes "loc df label col = Inr v"
  shows "filter (\<lambda>row. fst row = instant label) (frame_rows df) \<noteq> []
     \<and> (\<forall>row. filter (\<lambda>row. fst row = instant label) (frame_rows df) = [row]
           \<longrightarrow> v = Scalar (cell (snd row) col))
     \<and> (1 < length (filter (\<lambda>row. fst row = instant label) (frame_rows df))
           \<longrightarrow> v = Series (map (\<lambda>row. cell (snd row) col)
                 (filter (\<lambda>row. fst row = instant label) (frame_rows df))))"
proof (cases "filter (\<lambda>row. fst row = instant label) (frame_rows df)")
  case Nil
  with assms show ?thesis by (simp add: loc_def split: if_splits)
next
  case (Cons r rest)
  with assms show ?thesis by (cases rest) (auto simp: loc_def split: if_splits)
qed

lemma loc_total:
  assumes "col \<in> set (frame_columns (map snd (frame_rows df)))"
    and "filter (\<lambda>row. fst row = instant label) (frame_rows df) \<noteq> []"
  shows "\<exists>v. loc df label col = Inr v"
proof (cases "filter (\<lambda>row. fst row = instant label) (frame_rows df)")
  case Nil
  with assms(2) show ?thesis by simp
next
  case (Cons r rest)
  with assms(1) show ?thesis by (cases rest) (simp_all add: loc_def)
qed

lemma load_calendar_fields:
  assumes "load_calendar env symbol tr = (Inr cal, tr')"
  shows "\<exists>ef dividends.
      load_earnings env symbol (tr @ [Today]) = (Inr (Some ef), tr @ [Today, Earnings symbol])
    \<and> frame_rows ef \<noteq> []
    \<and> load_dividends env symbol (tr @ [Today, Earnings symbol])
        = (Inr dividends, tr @ [Today, Earnings symbol, Dividends symbol])
    \<and> (case dividends of
         None \<Rightarrow> lastExDate cal = None \<and> lastDividend cal = None \<and> nextExDate cal = None
       | Some df \<Rightarrow>
           frame_rows df \<noteq> []
         \<and> lastExDate cal = Some (Date (index_kind df) (Max (fst ` set (frame_rows df))))
         \<and> (\<forall>row. filter (\<lambda>row. fst row = Max (fst ` set (frame_rows df))) (frame_rows df) = [row]
               \<longrightarrow> lastDividend cal = Some (Scalar (cell (snd row) ''amount'')))
         \<and> (1 < length (filter (\<lambda>row. fst row = Max (fst ` set (frame_rows df))) (frame_rows df))
               \<longrightarrow> lastDividend cal = Some (Series (map (\<lambda>row. cell (snd row) ''amount'')
                     (filter (\<lambda>row. fst row = Max (fst ` set (frame_rows df))) (frame_rows df)))))
         \<and> estimate_next
               (clock env (tr @ [Today, Earnings symbol, Dividends symbol, Today]))
               (frame_index ef) = Inr (nextExDate cal))"
proof -
  let ?t0 = "tr @ [Today]"
  let ?t1 = "tr @ [Today, Earnings symbol]"
  let ?t2 = "tr @ [Today, Earnings symbol, Dividends symbol]"
  let ?t3 = "tr @ [Today, Earnings symbol, Dividends symbol, Today]"
  from assms obtain today tr0 earnings tr1 dividends tr2 reports tr3 exs tr4 where
    a0: "ask Today (\<lambda>tr. Inr (clock env tr)) tr = (Inr today, tr0)"
    and a1: "load_earnings env symbol tr0 = (Inr earnings, tr1)"
    and a2: "load_dividends env symbol tr1 = (Inr dividends, tr2)"
    and a3: "report_fields env earnings tr2 = (Inr reports, tr3)"
    and a4: "dividend_fields env earnings dividends tr3 = (Inr exs, tr4)"
    and r4: "io_return
       \<lparr> lastEPSReportDate = fst reports,
         nextEPSReportDate = snd reports,
         lastExDate = fst exs,
         lastDividend = fst (snd exs),
         nextExDate = snd (snd exs) \<rparr> tr4 = (Inr cal, tr')"
    unfolding load_calendar_def by (elim io_bindE) blast
  from a0 have t0: "tr0 = ?t0" by (auto elim: askE)
  from load_earnings_returns [OF a1] t0 obtain ef where
    t1: "tr1 = ?t1" and ef: "earnings = Some ef" and efr: "frame_rows ef \<noteq> []" by auto
  from load_dividends_returns [OF a2] t1 have t2: "tr2 = ?t2" by simp
  from a3 ef have "tr3 = tr2 @ [Today]"
    unfolding report_fields_def
    by (auto elim!: io_bindE io_liftE io_returnE dest: estimate_next_now_returns)
  with t2 have t3: "tr3 = ?t3" by simp
  from r4 have cal: "lastExDate cal = fst exs" "lastDividend cal = fst (snd exs)"
    "nextExDate cal = snd (snd exs)"
    by (auto elim!: io_returnE)
  have fields: "(case dividends of
         None \<Rightarrow> lastExDate cal = None \<and> lastDividend cal = None \<and> nextExDate cal = None
       | Some df \<Rightarrow>
           frame_rows df \<noteq> []
         \<and> lastExDate cal = Some (Date (index_kind df) (Max (fst ` set (frame_rows df))))
         \<and> (\<forall>row. filter (\<lambda>row. fst row = Max (fst ` set (frame_rows df))) (frame_rows df) = [row]
               \<longrightarrow> lastDividend cal = Some (Scalar (cell (snd row) ''amount'')))
         \<and> (1 < length (filter (\<lambda>row. fst row = Max (fst ` set (frame_rows df))) (frame_rows df))
               \<longrightarrow> lastDividend cal = Some (Series (map (\<lambda>row. cell (snd row) ''amount'')
                     (filter (\<lambda>row. fst row = Max (fst ` set (frame_rows df))) (frame_rows df)))))
         \<and> estimate_next (clock env ?t3) (frame_index ef) = Inr (nextExDate cal))"
  proof (cases dividends)
    case None
    with a4 cal show ?thesis by (auto simp: dividend_fields_def elim!: io_returnE)
  next
    case (Some df)
    with a4 obtain m tr5 amount tr6 dates tr7 next_ex tr8 where
      m: "io_lift (py_max (frame_index df)) tr3 = (Inr m, tr5)"
      and l: "io_lift (loc df m ''amount'') tr5 = (Inr amount, tr6)"
      and d: "io_lift (earnings_index earnings) tr6 = (Inr dates, tr7)"
      and n: "estimate_next_now env dates tr7 = (Inr next_ex, tr8)"
      and x: "io_return (Some m, Some amount, next_ex) tr8 = (Inr exs, tr4)"
      by (auto simp: dividend_fields_def elim!: io_bindE)
    from m have m': "py_max (frame_index df) = Inr m" and t5: "tr5 = tr3" by (auto elim: io_liftE)
    from py_max_index [OF m'] have ne: "frame_rows df \<noteq> []"
      and mm: "m = Date (index_kind df) (Max (fst ` set (frame_rows df)))"
      by simp_all
    from l have l': "loc df m ''amount'' = Inr amount" and t6: "tr6 = tr5" by (auto elim: io_liftE)
    from d ef have d': "dates = frame_index ef" and t7: "tr7 = tr6"
      by (auto elim!: io_liftE simp: earnings_index_def)
    from estimate_next_now_returns [OF n] t7 t6 t5 t3 d'
    have e: "estimate_next (clock env ?t3) (frame_index ef) = Inr next_ex" by simp
    from x have exs: "exs = (Some m, Some amount, next_ex)" by (auto elim: io_returnE)
    from loc_rows [OF l'] mm
    have single: "\<forall>row. filter (\<lambda>row. fst row = Max (fst ` set (frame_rows df))) (frame_rows df) = [row]
           \<longrightarrow> amount = Scalar (cell (snd row) ''amount'')"
      and several: "1 < length (filter (\<lambda>row. fst row = Max (fst ` set (frame_rows df))) (frame_rows df))
           \<longrightarrow> amount = Series (map (\<lambda>row. cell (snd row) ''amount'')
                 (filter (\<lambda>row. fst row = Max (fst ` set (frame_rows df))) (frame_rows df)))"
      by simp_all
    from Some ne mm e exs cal single several show ?thesis by simp
  qed
  from a1 t0 t1 ef have "load_earnings env symbol ?t0 = (Inr (Some ef), ?t1)" by simp
  moreover from a2 t1 t2 have "load_dividends env symbol ?t1 = (Inr dividends, ?t2)" by simp
  ultimately show ?thesis using fields efr by blast
qed

lemma load_calendar_returns:
  assumes le: "load_earnings env symbol (tr @ [Today]) = (Inr (Some ef), t1)"
    and ld: "load_dividends env symbol t1 = (Inr dividends, t2)"
    and e1: "estimate_next (clock env t2) (frame_index ef) = Inr nr"
    and dv: "case dividends of
               None \<Rightarrow> True
             | Some df \<Rightarrow> ''amount'' \<in> set (frame_columns (map snd (frame_rows df)))
                 \<and> (\<exists>nx. estimate_next (clock env (t2 @ [Today])) (frame_index ef) = Inr nx)"
  shows "\<exists>cal tr'. load_calendar env symbol tr = (Inr cal, tr')"
proof -
  from load_earnings_returns [OF le] have efr: "frame_rows ef \<noteq> []" by simp
  have rep: "report_fields env (Some ef) t2
      = (Inr (Some (Date (index_kind ef) (Max (fst ` set (frame_rows ef)))), nr), t2 @ [Today])"
    by (simp add: report_fields_def io_bind_def io_lift_def io_return_def
        py_max_index_total [OF efr] estimate_next_now_eq e1)
  have "\<exists>exs tr4. dividend_fields env (Some ef) dividends (t2 @ [Today]) = (Inr exs, tr4)"
  proof (cases dividends)
    case None
    then show ?thesis by (simp add: dividend_fields_def io_return_def)
  next
    case (Some df)
    with load_dividends_returns [OF ld] have dfr: "frame_rows df \<noteq> []" by simp
    from Some dv obtain nx where am: "''amount'' \<in> set (frame_columns (map snd (frame_rows df)))"
      and e2: "estimate_next (clock env (t2 @ [Today])) (frame_index ef) = Inr nx" by auto
    let ?m = "Date (index_kind df) (Max (fst ` set (frame_rows df)))"
    from loc_total [OF am, of ?m] rows_on_greatest [OF dfr] obtain v where
      v: "loc df ?m ''amount'' = Inr v" by auto
    from Some show ?thesis
      by (simp add: dividend_fields_def io_bind_def io_lift_def io_return_def
          py_max_index_total [OF dfr] v earnings_index_def estimate_next_now_eq e2)
  qed
  then obtain exs tr4 where dfs: "dividend_fields env (Some ef) dividends (t2 @ [Today]) = (Inr exs, tr4)"
    by blast
  show ?thesis
    by (simp add: load_calendar_def io_bind_def ask_def io_return_def le ld rep dfs)
qed

text \<open>
  Claim C4, as amended. Whenever \<open>load_calendar\<close> returns a calendar, it loaded an
  earnings frame \<open>ef\<close> with at least one record, and the dividends it loaded decide the
  three dividend fields. With no dividend frame the three are null. With a dividend
  frame \<open>df\<close>, which then has a row, \<open>lastExDate\<close> is the greatest ex-date;
  \<open>lastDividend\<close> is the amount of the record with that ex-date when there is one
  such record, and the series of the amounts of all records with that ex-date, in
  their order, when there are several; \<open>nextExDate\<close> is \<open>estimate_next\<close> of the index
  of the earnings frame, not of the dividend frame, at the reading of the clock in
  that call. And \<open>load_calendar\<close> does return a calendar whenever the earnings
  frame and the dividends load, the estimate of the next report does not raise and,
  with a dividend frame, the records have an \<open>amount\<close> and the estimate of the next
  ex-date does not raise.
\<close>

theorem load_calendar_dividend_fields:
  "(load_calendar env symbol tr = (Inr cal, tr') \<longrightarrow>
     (\<exists>ef dividends.
      load_earnings env symbol (tr @ [Today]) = (Inr (Some ef), tr @ [Today, Earnings symbol])
    \<and> frame_rows ef \<noteq> []
    \<and> load_dividends env symbol (tr @ [Today, Earnings symbol])
        = (Inr dividends, tr @ [Today, Earnings symbol, Dividends symbol])
    \<and> (case dividends of
         None \<Rightarrow> lastExDate cal = None \<and> lastDividend cal = None \<and> nextExDate cal = None
       | Some df \<Rightarrow>
           frame_rows df \<noteq> []
         \<and> lastExDate cal = Some (Date (index_kind df) (Max (fst ` set (frame_rows df))))
         \<and> (\<forall>row. filter (\<lambda>row. fst row = Max (fst ` set (frame_rows df))) (frame_rows df) = [row]
               \<longrightarrow> lastDividend cal = Some (Scalar (cell (snd row) ''amount'')))
         \<and> (1 < length (filter (\<lambda>row. fst row = Max (fst ` set (frame_rows df))) (frame_rows df))
               \<longrightarrow> lastDividend cal = Some (Series (map (\<lambda>row. cell (snd row) ''amount'')
                     (filter (\<lambda>row. fst row = Max (fst ` set (frame_rows df))) (frame_rows df)))))
         \<and> estimate_next
               (clock env (tr @ [Today, Earnings symbol, Dividends symbol, Today]))
               (frame_index ef) = Inr (nextExDate cal))))
   \<and> (\<forall>ef t1 dividends t2 nr.
         load_earnings env symbol (tr @ [Today]) = (Inr (Some ef), t1)
       \<and> load_dividends env symbol t1 = (Inr dividends, t2)
       \<and> estimate_next (clock env t2) (frame_index ef) = Inr nr
       \<and> (case dividends of
             None \<Rightarrow> True
           | Some df \<Rightarrow> ''amount'' \<in> set (frame_columns (map snd (frame_rows df)))
               \<and> (\<exists>nx. estimate_next (clock env (t2 @ [Today])) (frame_index ef) = Inr nx))
       \<longrightarrow> (\<exists>cal tr'. load_calendar env symbol tr = (Inr cal, tr')))"
proof (intro conjI allI impI)
  assume "load_calendar env symbol tr = (Inr cal, tr')"
  then show "\<exists>ef dividends.
      load_earnings env symbol (tr @ [Today]) = (Inr (Some ef), tr @ [Today, Earnings symbol])
    \<and> frame_rows ef \<noteq> []
    \<and> load_dividends env symbol (tr @ [Today, Earnings symbol])
        = (Inr dividends, tr @ [Today, Earnings symbol, Dividends symbol])
    \<and> (case dividends of
         None \<Rightarrow> lastExDate cal = None \<and> lastDividend cal = None \<and> nextExDate cal = None
       | Some df \<Rightarrow>
           frame_rows df \<noteq> []
         \<and> lastExDate cal = Some (Date (index_kind df) (Max (fst ` set (frame_rows df))))
         \<and> (\<forall>row. filter (\<lambda>row. fst row = Max (fst ` set (frame_rows df))) (frame_rows df) = [row]
               \<longrightarrow> lastDividend cal = Some (Scalar (cell (snd row) ''amount'')))
         \<and> (1 < length (filter (\<lambda>row. fst row = Max (fst ` set (frame_rows df))) (frame_rows df))
               \<longrightarrow> lastDividend cal = Some (Series (map (\<lambda>row. cell (snd row) ''amount'')
                     (filter (\<lambda>row. fst row = Max (fst ` set (frame_rows df))) (frame_rows df)))))
         \<and> estimate_next
               (clock env (tr @ [Today, Earnings symbol, Dividends symbol, Today]))
               (frame_index ef) = Inr (nextExDate cal))"
    by (rule load_calendar_fields)
next
  fix ef t1 dividends t2 nr
  assume a: "load_earnings env symbol (tr @ [Today]) = (Inr (Some ef), t1)
       \<and> load_dividends env symbol t1 = (Inr dividends, t2)
       \<and> estimate_next (clock env t2) (frame_index ef) = Inr nr
       \<and> (case dividends of
             None \<Rightarrow> True
           | Some df \<Rightarrow> ''amount'' \<in> set (frame_columns (map snd (frame_rows df)))
               \<and> (\<exists>nx. estimate_next (clock env (t2 @ [Today])) (frame_index ef) = Inr nx))"
  show "\<exists>cal tr'. load_calendar env symbol tr = (Inr cal, tr')"
    by (rule load_calendar_returns [of env symbol tr ef t1 dividends t2 nr])
       (use a in blast)+
qed

lemma dividend_example:
  "load_calendar dividend_env ''AAPL'' []
     = (Inr dividend_calendar, [Today, Earnings ''AAPL'', Dividends ''AAPL'', Today, Today])"
  by code_simp

text \<open>
  The theorem in the world with two dividend records on different dates: the last
  ex-date is 2023-08-11, the last dividend is the 0.24 of that record, and the next
  ex-date is 2024-02-01, the estimate from the earnings report of 2023-02-01.
\<close>

theorem load_calendar_dividend_fields_witness:
  "load_calendar dividend_env ''AAPL'' []
     = (Inr dividend_calendar, [Today, Earnings ''AAPL'', Dividends ''AAPL'', Today, Today])
   \<and> (\<exists>ef dividends.
      load_earnings dividend_env ''AAPL'' ([] @ [Today]) = (Inr (Some ef), [] @ [Today, Earnings ''AAPL''])
    \<and> frame_rows ef \<noteq> []
    \<and> load_dividends dividend_env ''AAPL'' ([] @ [Today, Earnings ''AAPL''])
        = (Inr dividends, [] @ [Today, Earnings ''AAPL'', Dividends ''AAPL''])
    \<and> (case dividends of
         None \<Rightarrow> lastExDate dividend_calendar = None \<and> lastDividend dividend_calendar = None \<and> nextExDate dividend_calendar = None
       | Some df \<Rightarrow>
           frame_rows df \<noteq> []
         \<and> lastExDate dividend_calendar = Some (Date (index_kind df) (Max (fst ` set (frame_rows df))))
         \<and> (\<forall>row. filter (\<lambda>row. fst row = Max (fst ` set (frame_rows df))) (frame_rows df) = [row]
               \<longrightarrow> lastDividend dividend_calendar = Some (Scalar (cell (snd row) ''amount'')))
         \<and> (1 < length (filter (\<lambda>row. fst row = Max (fst ` set (frame_rows df))) (frame_rows df))
               \<longrightarrow> lastDividend dividend_calendar = Some (Series (map (\<lambda>row. cell (snd row) ''amount'')
                     (filter (\<lambda>row. fst row = Max (fst ` set (frame_rows df))) (frame_rows df)))))
         \<and> estimate_next
               (clock dividend_env ([] @ [Today, Earnings ''AAPL'', Dividends ''AAPL'', Today]))
               (frame_index ef) = Inr (nextExDate dividend_calendar)))"
  using conjunct1 [OF load_calendar_dividend_fields
      [where env = dividend_env and symbol = "''AAPL''" and tr = "[]" and cal = dividend_calendar
         and tr' = "[Today, Earnings ''AAPL'', Dividends ''AAPL'', Today, Today]"],
      THEN mp, OF dividend_example]
    dividend_example
  by (rule conjI [rotated])

text \<open>
  Claim C4 as stated fails in two ways. With two dividend records on the last
  ex-date \<open>lastDividend\<close> is not an amount but the series of both amounts. And a
  symbol with dividend records and no earnings record gets no calendar at all:
  \<open>load_earnings\<close> raises, the defect of claims C2 and C3.
\<close>

theorem load_calendar_dividend_fields_counterexample:
  "load_calendar same_day_env ''AAPL'' []
     = (Inr same_day_calendar, [Today, Earnings ''AAPL'', Dividends ''AAPL'', Today, Today])
   \<and> lastDividend same_day_calendar = Some (Series [JNum 0.25, JNum 0.5])
   \<and> get_dividends no_report_env [Today, Earnings ''AAPL''] ''AAPL''
       = Inr [dividend_record 0.23 ''2023-05-12'', dividend_record 0.24 ''2023-08-11'']
   \<and> load_calendar no_report_env ''AAPL'' [] = (Inl KeyError, [Today, Earnings ''AAPL''])"
  by code_simp

section \<open>The collection\<close>







lemma generate_stats_length:
  "generate_stats env xs tr = (Inr rows, tr') \<Longrightarrow> length rows = length xs"
proof (induction xs arbitrary: tr rows tr')
  case Nil
  then show ?case by (simp add: io_return_def)
next
  case (Cons x xs)
  from Cons.prems obtain row tr1 where "generate_stats_step env x tr = (Inr row, tr1)"
    and r: "io_bind (generate_stats env xs) (\<lambda>rest. io_return (row # rest)) tr1 = (Inr rows, tr')"
    by (auto elim: io_bindE)
  from r obtain rest tr2 where g: "generate_stats env xs tr1 = (Inr rest, tr2)"
    and "io_return (row # rest) tr2 = (Inr rows, tr')"
    by (auto elim: io_bindE)
  then have "rows = row # rest" by (simp add: io_return_def)
  with Cons.IH [OF g] show ?case by simp
qed








lemma concerns_simps [simp]:
  "concerns S Today" "concerns S (Collecting s) = (s \<in> S)" "concerns S (Historical s) = (s \<in> S)"
  "concerns S (Backtest s) = (s \<in> S)" "concerns S (Earnings s) = (s \<in> S)"
  "concerns S (Dividends s) = (s \<in> S)"
  by (simp_all add: concerns_def)










lemma run_collection_index:
  assumes "run_collection env symbols tr = (Inr table, tr')"
  shows "map fst table = symbols"
proof -
  from assms obtain rows tr1 where g: "generate_stats env symbols tr = (Inr rows, tr1)"
    and d: "io_lift (data_frame rows symbols) tr1 = (Inr table, tr')"
    unfolding run_collection_def by (auto elim: io_bindE)
  from g have "length rows = length symbols" by (rule generate_stats_length)
  with d show ?thesis by (auto simp: io_lift_def data_frame_def)
qed

lemma cmd_collect_index:
  assumes "cmd_collect env set_order sp500 None (Some symbols) tr = (Inr table, tr')"
  shows "map fst table = set_order (set symbols)"
proof -
  from assms obtain S tr1 where
    l: "io_lift (fst (load_symbol_list [] (Some []) (Some symbols) sp500)) tr = (Inr S, tr1)"
    and r: "run_collection env (set_order S) tr1 = (Inr table, tr')"
    unfolding cmd_collect_def by (auto elim: io_bindE)
  from l have "S = set symbols"
    by (auto simp: io_lift_def load_symbol_list_def split: if_splits)
  with run_collection_index [OF r] show ?thesis by simp
qed

text \<open>
  Claim C5, as amended. A table that \<open>run_collection\<close> returns has one row for every
  element of the sequence it was given, in that order, repeated symbols included. It
  is the command \<open>collect\<close> that removes repetitions first, in \<open>load_symbol_list\<close>:
  with explicit symbols and no group, and \<open>list(set(...))\<close> listing the set without
  repetition, the table it returns has as many rows as there are distinct symbols,
  one for each.
\<close>

theorem run_collection_row_count:
  "(\<forall>table tr'. run_collection env symbols tr = (Inr table, tr') \<longrightarrow>
       map fst table = symbols \<and> length table = length symbols)
   \<and> (\<forall>table tr'. distinct (set_order (set symbols)) \<and> set (set_order (set symbols)) = set symbols
         \<and> cmd_collect env set_order sp500 None (Some symbols) tr = (Inr table, tr') \<longrightarrow>
       length table = card (set symbols) \<and> distinct (map fst table)
         \<and> set (map fst table) = set symbols)"
proof (intro conjI allI impI)
  fix table tr'
  assume "run_collection env symbols tr = (Inr table, tr')"
  then have m: "map fst table = symbols" by (rule run_collection_index)
  then show "map fst table = symbols" .
  from m show "length table = length symbols" by (metis length_map)
next
  fix table tr'
  assume a: "distinct (set_order (set symbols)) \<and> set (set_order (set symbols)) = set symbols
         \<and> cmd_collect env set_order sp500 None (Some symbols) tr = (Inr table, tr')"
  then have m: "map fst table = set_order (set symbols)" by (blast intro: cmd_collect_index)
  with a show "distinct (map fst table)" by simp
  from m a show "set (map fst table) = set symbols" by simp
  from a have "card (set symbols) = length (set_order (set symbols))"
    by (metis distinct_card)
  with m show "length table = card (set symbols)" by (metis length_map)
qed

text \<open>
  Claim C5 as stated fails on \<open>run_collection\<close> itself: for \<open>AAPL\<close>, \<open>AAPL\<close>, \<open>MSFT\<close>
  it returns three rows, while the symbols are two.
\<close>

theorem run_collection_row_count_counterexample:
  "run_collection example_env [''AAPL'', ''AAPL'', ''MSFT''] []
     = (Inr [(''AAPL'', (), example_calendar), (''AAPL'', (), example_calendar),
             (''MSFT'', (), example_calendar)],
        events_of ''AAPL'' @ events_of ''AAPL'' @ events_of ''MSFT'')
   \<and> card (set [''AAPL'', ''AAPL'', ''MSFT'']) = 2"
  by code_simp

lemma example_cmd_collect:
  "cmd_collect example_env (\<lambda>S. [''MSFT'', ''AAPL'']) (Inl (External ''IOError'')) None
       (Some [''AAPL'', ''AAPL'', ''MSFT'']) []
     = (Inr [(''MSFT'', (), example_calendar), (''AAPL'', (), example_calendar)],
        events_of ''MSFT'' @ events_of ''AAPL'')"
  by code_simp

text \<open>
  The theorem on the same symbols through the command: two rows.
\<close>

theorem run_collection_row_count_witness:
  "distinct [''MSFT'', ''AAPL'']
   \<and> set [''MSFT'', ''AAPL''] = set [''AAPL'', ''AAPL'', ''MSFT'']
   \<and> cmd_collect example_env (\<lambda>S. [''MSFT'', ''AAPL'']) (Inl (External ''IOError'')) None
       (Some [''AAPL'', ''AAPL'', ''MSFT'']) []
     = (Inr [(''MSFT'', (), example_calendar), (''AAPL'', (), example_calendar)],
        events_of ''MSFT'' @ events_of ''AAPL'')
   \<and> length [(''MSFT'', (), example_calendar), (''AAPL'', (), example_calendar)]
       = card (set [''AAPL'', ''AAPL'', ''MSFT''])"
proof -
  have d: "distinct [''MSFT'', ''AAPL'']" by simp
  have s: "set [''MSFT'', ''AAPL''] = set [''AAPL'', ''AAPL'', ''MSFT'']" by auto
  note th = run_collection_row_count
    [of example_env "[''AAPL'', ''AAPL'', ''MSFT'']" "[]" "\<lambda>S. [''MSFT'', ''AAPL'']"
        "Inl (External ''IOError'')"]
  from th d s example_cmd_collect
  have "length [(''MSFT'', (), example_calendar), (''AAPL'', (), example_calendar)]
       = card (set [''AAPL'', ''AAPL'', ''MSFT''])"
    by blast
  with d s example_cmd_collect show ?thesis by blast
qed

end
